theory Spec2Isabelle
  imports Main "HOL-Library.Multiset" "HOL-Library.Sublist"
begin

section \<open>Rendering of numbers and of JSON text\<close>

text \<open>
  The cache keys are built by template literals and by \<^verbatim>\<open>JSON.stringify\<close>.
  Group ids are the integer ids of the \<^verbatim>\<open>group\<close> table; a template literal renders
  such a number in decimal, with a leading minus sign when it is negative. This is what
  JavaScript prints for every integer of magnitude up to \<open>2^53\<close>, the range in which a
  JavaScript number holds every integer exactly; the ids of the tables lie in it, and the
  model is about ids of that range. Strings are lists of 8-bit code units.
\<close>

definition digitChar :: "nat \<Rightarrow> char" where
  "digitChar d = ''0123456789'' ! d"

fun digits10 :: "nat \<Rightarrow> string" where
  "digits10 n =
     (if n < 10 then [digitChar n]
      else digits10 (n div 10) @ [digitChar (n mod 10)])"

declare digits10.simps [simp del]

definition numberToString :: "int \<Rightarrow> string" where
  "numberToString i =
     (if i < 0 then CHR ''-'' # digits10 (nat (- i)) else digits10 (nat i))"

text \<open>
  \<^verbatim>\<open>interface FilterCriteria { jobTitle?: string; firstName?: string }\<close>:
  an absent (undefined) property is \<open>None\<close>. \<^verbatim>\<open>JSON.stringify\<close> lists the properties
  of an object in the order in which they were added to it; \<open>fc_firstNameFirst\<close> says
  that \<^verbatim>\<open>firstName\<close> was added before \<^verbatim>\<open>jobTitle\<close>, which matters only when both are
  present.
\<close>

record FilterCriteria =
  fc_jobTitle :: "string option"
  fc_firstName :: "string option"
  fc_firstNameFirst :: bool

definition hexDigit :: "nat \<Rightarrow> char" where
  "hexDigit d = ''0123456789abcdef'' ! d"

text \<open>The escaping of one code unit inside a JSON string literal.\<close>

definition quoteChar :: "char \<Rightarrow> string" where
  "quoteChar c =
     (if c = CHR 0x22 then [CHR 0x5C, CHR 0x22]
      else if c = CHR 0x5C then [CHR 0x5C, CHR 0x5C]
      else if c = CHR 0x08 then [CHR 0x5C, CHR ''b'']
      else if c = CHR 0x0C then [CHR 0x5C, CHR ''f'']
      else if c = CHR 0x0A then [CHR 0x5C, CHR ''n'']
      else if c = CHR 0x0D then [CHR 0x5C, CHR ''r'']
      else if c = CHR 0x09 then [CHR 0x5C, CHR ''t'']
      else if (of_char c :: nat) < 32
        then [CHR 0x5C, CHR ''u'', CHR ''0'', CHR ''0'',
              hexDigit ((of_char c :: nat) div 16), hexDigit ((of_char c :: nat) mod 16)]
      else [c])"

definition quoteJSONString :: "string \<Rightarrow> string" where
  "quoteJSONString s = [CHR 0x22] @ concat (map quoteChar s) @ [CHR 0x22]"

fun join :: "string \<Rightarrow> string list \<Rightarrow> string" where
  "join sep [] = []"
| "join sep [x] = x"
| "join sep (x # y # ys) = x @ sep @ join sep (y # ys)"

definition stringifyProperty :: "string \<Rightarrow> string option \<Rightarrow> string list" where
  "stringifyProperty name v =
     (case v of None \<Rightarrow> []
      | Some s \<Rightarrow> [quoteJSONString name @ '':'' @ quoteJSONString s])"

definition stringifyCriteria :: "FilterCriteria \<Rightarrow> string" where
  "stringifyCriteria criteria =
     ''{''
     @ join '',''
         (if fc_firstNameFirst criteria
          then stringifyProperty ''firstName'' (fc_firstName criteria)
               @ stringifyProperty ''jobTitle'' (fc_jobTitle criteria)
          else stringifyProperty ''jobTitle'' (fc_jobTitle criteria)
               @ stringifyProperty ''firstName'' (fc_firstName criteria))
     @ ''}''"

definition JSON_stringify :: "FilterCriteria list \<Rightarrow> string" where
  "JSON_stringify filterCriteria = ''['' @ join '','' (map stringifyCriteria filterCriteria) @ '']''"


section \<open>Cache keys\<close>

text \<open>
  \<^verbatim>\<open>fetchGroupHierarchyBelow\<close>:
  \<^verbatim>\<open>const cacheKey = `groups_below_${groupId}_${JSON.stringify(filterCriteria)}`\<close>.
\<close>

definition cacheKey_below :: "int \<Rightarrow> FilterCriteria list \<Rightarrow> string" where
  "cacheKey_below groupId filterCriteria =
     ''groups_below_'' @ numberToString groupId @ ''_'' @ JSON_stringify filterCriteria"

text \<open>
  \<^verbatim>\<open>fetchGroupHierarchyAbove\<close>:
  \<^verbatim>\<open>const cacheKey = `group_above_${groupId}}`\<close>; the second closing brace is
  outside the substitution and is part of the key.
\<close>

definition cacheKey_above :: "int \<Rightarrow> string" where
  "cacheKey_above groupId = ''group_above_'' @ numberToString groupId @ ''}''"

text \<open>
  \<^verbatim>\<open>getPersons\<close>: \<^verbatim>\<open>`person_id_${id}`\<close> with the query parameter as it was sent,
  and \<^verbatim>\<open>"all_persons"\<close>; \<^verbatim>\<open>getGroups\<close>: \<^verbatim>\<open>"all_groups"\<close>.
\<close>

definition cacheKey_person :: "string \<Rightarrow> string" where
  "cacheKey_person personId = ''person_id_'' @ personId"

definition cacheKey_all_persons :: string where
  "cacheKey_all_persons = ''all_persons''"

definition cacheKey_all_groups :: string where
  "cacheKey_all_groups = ''all_groups''"


section \<open>The cache\<close>

text \<open>
  The Redis store, as the program uses it: a map from keys to a stored value and the time
  at which the entry expires. The stored text is the \<^verbatim>\<open>JSON.stringify\<close> of a result
  and a hit returns its \<^verbatim>\<open>JSON.parse\<close>; for the results cached here (objects of
  numbers, strings and arrays) parsing gives back the value that was serialised, so an
  entry is modelled by the value itself. Time is a number of seconds; one call runs at one
  instant \<open>now\<close>. The store and the cache are taken to be reachable: a failure can only
  come from the computation handed to \<open>getOrSetCache\<close>.
\<close>

type_synonym 'v cache = "string \<Rightarrow> ('v \<times> nat) option"

definition DEFAULT_EXPIRATION :: nat where
  "DEFAULT_EXPIRATION = 3600"

definition redis_get :: "nat \<Rightarrow> 'v cache \<Rightarrow> string \<Rightarrow> 'v option" where
  "redis_get now c key =
     (case c key of
        None \<Rightarrow> None
      | Some (v, expiresAt) \<Rightarrow> if now < expiresAt then Some v else None)"

definition redis_setex :: "nat \<Rightarrow> string \<Rightarrow> nat \<Rightarrow> 'v \<Rightarrow> 'v cache \<Rightarrow> 'v cache" where
  "redis_setex now key seconds v c = c(key \<mapsto> (v, now + seconds))"

definition redis_del :: "string \<Rightarrow> 'v cache \<Rightarrow> 'v cache" where
  "redis_del key c = c(key := None)"

text \<open>A thrown value (a rejected promise).\<close>

datatype error = Rejected string

text \<open>
  An asynchronous computation that may use the cache: it takes the cache and gives back
  either a thrown error or a value, with the cache as it left it; \<open>None\<close> means that the
  computation does not return.
\<close>

type_synonym 'v computation = "'v cache \<Rightarrow> ((error + 'v) \<times> 'v cache) option"

definition getOrSetCache :: "nat \<Rightarrow> string \<Rightarrow> 'v computation \<Rightarrow> 'v computation" where
  "getOrSetCache now key cb c =
     (case redis_get now c key of
        Some data \<Rightarrow> Some (Inr data, c)
      | None \<Rightarrow>
         (case cb c of
            None \<Rightarrow> None
          | Some (Inl err, c') \<Rightarrow> Some (Inl err, c')
          | Some (Inr freshData, c') \<Rightarrow>
              Some (Inr freshData, redis_setex now key DEFAULT_EXPIRATION freshData c')))"

text \<open>
  \<^verbatim>\<open>redisClient.keys(`${prefix}*`)\<close> followed by \<^verbatim>\<open>del\<close> of the keys found. The
  prefixes used by the group controllers contain no pattern character, so the pattern
  matches exactly the keys that start with the prefix.
\<close>

definition clearKeysStartingWith :: "string \<Rightarrow> 'v cache \<Rightarrow> 'v cache" where
  "clearKeysStartingWith pfx c = (\<lambda>key. if prefix pfx key then None else c key)"


section \<open>The store\<close>

record group_row =
  g_id :: int
  g_groupName :: string
  g_parentGroupId :: "int option"
  g_updatedAt :: nat

record person_row =
  p_id :: int
  p_firstName :: string
  p_lastName :: string
  p_jobTitle :: string
  p_groupId :: "int option"

record database =
  groupTable :: "group_row list"
  personTable :: "person_row list"

text \<open>
  \<^verbatim>\<open>SELECT ... FROM `group` WHERE id = ?\<close>. A \<^verbatim>\<open>NULL\<close> parameter matches no row.
\<close>

definition select_group_by_id :: "database \<Rightarrow> int option \<Rightarrow> group_row list" where
  "select_group_by_id db i =
     (case i of None \<Rightarrow> [] | Some j \<Rightarrow> filter (\<lambda>g. g_id g = j) (groupTable db))"

text \<open>\<^verbatim>\<open>SELECT id, groupName FROM `group` WHERE parentGroupId = ?\<close>\<close>

definition select_groups_by_parent :: "database \<Rightarrow> int \<Rightarrow> group_row list" where
  "select_groups_by_parent db groupId =
     filter (\<lambda>g. g_parentGroupId g = Some groupId) (groupTable db)"

datatype column = JobTitle | FirstName

fun columnValue :: "person_row \<Rightarrow> column \<Rightarrow> string" where
  "columnValue p JobTitle = p_jobTitle p"
| "columnValue p FirstName = p_firstName p"

text \<open>
  \<^verbatim>\<open>SELECT ... FROM person WHERE groupId = ? AND <column> = ? AND ...\<close>, one
  equation per condition.
\<close>

definition select_persons :: "database \<Rightarrow> int \<Rightarrow> (column \<times> string) list \<Rightarrow> person_row list" where
  "select_persons db groupId conditions =
     filter (\<lambda>p. p_groupId p = Some groupId
                 \<and> list_all (\<lambda>(col, v). columnValue p col = v) conditions)
            (personTable db)"


section \<open>The descendant traversal\<close>

record Person =
  person_id :: int
  firstName :: string
  lastName :: string
  jobTitle :: string

datatype GroupBelow =
  GroupBelow (gb_id: int) (gb_groupName: string) (gb_persons: "Person list")
    (gb_groups: "GroupBelow list")

datatype 'g GroupOrError = IsGroup 'g | IsError string

definition notFound :: "int \<Rightarrow> string" where
  "notFound groupId = ''Group with ID '' @ numberToString groupId @ '' not found''"

text \<open>
  The body of \<^verbatim>\<open>filterCriteria.forEach\<close>: a property adds a condition when it is
  truthy, that is, present and not the empty string.
\<close>

definition truthy :: "string option \<Rightarrow> bool" where
  "truthy v = (case v of None \<Rightarrow> False | Some s \<Rightarrow> s \<noteq> [])"

definition criteriaConditions :: "FilterCriteria \<Rightarrow> (column \<times> string) list" where
  "criteriaConditions criteria =
     (if truthy (fc_jobTitle criteria) then [(JobTitle, the (fc_jobTitle criteria))] else [])
     @ (if truthy (fc_firstName criteria) then [(FirstName, the (fc_firstName criteria))] else [])"

definition buildConditions :: "FilterCriteria list \<Rightarrow> (column \<times> string) list" where
  "buildConditions filterCriteria = concat (map criteriaConditions filterCriteria)"

definition personOfRow :: "person_row \<Rightarrow> Person" where
  "personOfRow personRow =
     \<lparr>person_id = p_id personRow, firstName = p_firstName personRow,
      lastName = p_lastName personRow, jobTitle = p_jobTitle personRow\<rparr>"

text \<open>
  \<^verbatim>\<open>fetchGroupHierarchyBelow\<close> and its loop over the child rows. The first argument
  bounds the nesting of callbacks: with none left the callback does not return. Every
  recursive call goes through \<open>getOrSetCache\<close>, as the exported function does.
\<close>

fun fetchGroupHierarchyBelow ::
    "nat \<Rightarrow> database \<Rightarrow> nat \<Rightarrow> int \<Rightarrow> FilterCriteria list \<Rightarrow> GroupBelow GroupOrError computation"
  and forChildGroups ::
    "nat \<Rightarrow> database \<Rightarrow> nat \<Rightarrow> FilterCriteria list \<Rightarrow> group_row list \<Rightarrow> GroupBelow
       \<Rightarrow> GroupBelow GroupOrError computation"
where
  "fetchGroupHierarchyBelow 0 db now groupId filterCriteria c =
     getOrSetCache now (cacheKey_below groupId filterCriteria) (\<lambda>c1. None) c"
| "fetchGroupHierarchyBelow (Suc fuel) db now groupId filterCriteria c =
     getOrSetCache now (cacheKey_below groupId filterCriteria)
       (\<lambda>c1. case select_group_by_id db (Some groupId) of
                [] \<Rightarrow> Some (Inr (IsError (notFound groupId)), c1)
              | groupRow # _ \<Rightarrow>
                  forChildGroups fuel db now filterCriteria
                    (select_groups_by_parent db groupId)
                    (GroupBelow groupId (g_groupName groupRow)
                       (map personOfRow
                          (select_persons db groupId (buildConditions filterCriteria)))
                       [])
                    c1)
       c"
| "forChildGroups fuel db now filterCriteria [] grp c = Some (Inr (IsGroup grp), c)"
| "forChildGroups fuel db now filterCriteria (childGroupRow # childGroups) grp c =
     (case fetchGroupHierarchyBelow fuel db now (g_id childGroupRow) filterCriteria c of
        None \<Rightarrow> None
      | Some (Inl err, c') \<Rightarrow> Some (Inl err, c')
      | Some (Inr (IsError msg), c') \<Rightarrow> Some (Inr (IsError msg), c')
      | Some (Inr (IsGroup child), c') \<Rightarrow>
          forChildGroups fuel db now filterCriteria childGroups
            (GroupBelow (gb_id grp) (gb_groupName grp) (gb_persons grp)
               (gb_groups grp
                  @ [GroupBelow (g_id childGroupRow) (g_groupName childGroupRow)
                       (gb_persons child) (gb_groups child)]))
            c')"


section \<open>The ancestor traversal\<close>

datatype GroupAbove =
  GroupAbove (ga_id: int) (ga_groupName: string) (ga_parentGroup: "GroupAbove list")

text \<open>
  \<^verbatim>\<open>fetchparentGroupRecursive(currentGroupId, currentGroup)\<close> pushes onto
  \<^verbatim>\<open>currentGroup.parentGroup\<close>; the model returns the object as the call leaves it.
  Nothing bounds the recursion, so the function is partial: \<open>None\<close> when it does not
  return.
\<close>

partial_function (option) fetchparentGroupRecursive ::
    "database \<Rightarrow> int \<Rightarrow> GroupAbove \<Rightarrow> GroupAbove option"
where
  "fetchparentGroupRecursive db currentGroupId currentGroup =
     (case select_group_by_id db (Some currentGroupId) of
        [] \<Rightarrow> Some currentGroup
      | currentGroupRow # _ \<Rightarrow>
         (case select_group_by_id db (g_parentGroupId currentGroupRow) of
            [] \<Rightarrow> Some currentGroup
          | parentGroupRow # _ \<Rightarrow>
              Option.bind
                (fetchparentGroupRecursive db (g_id parentGroupRow)
                   (GroupAbove (g_id parentGroupRow) (g_groupName parentGroupRow) []))
                (\<lambda>parentGroup.
                   Some (GroupAbove (ga_id currentGroup) (ga_groupName currentGroup)
                           (ga_parentGroup currentGroup @ [parentGroup])))))"

declare fetchparentGroupRecursive.simps [code]

definition fetchGroupHierarchyAbove ::
    "database \<Rightarrow> nat \<Rightarrow> int \<Rightarrow> GroupAbove GroupOrError computation"
where
  "fetchGroupHierarchyAbove db now groupId c =
     getOrSetCache now (cacheKey_above groupId)
       (\<lambda>c1. case select_group_by_id db (Some groupId) of
                [] \<Rightarrow> Some (Inr (IsError (notFound groupId)), c1)
              | groupRow # _ \<Rightarrow>
                 (case fetchparentGroupRecursive db groupId
                         (GroupAbove (g_id groupRow) (g_groupName groupRow) []) of
                    None \<Rightarrow> None
                  | Some grp \<Rightarrow> Some (Inr (IsGroup grp), c1)))
       c"


section \<open>The group controllers\<close>

datatype body = Message string | ErrorBody string

datatype response = Json nat body

text \<open>A field of the request body: absent, \<^verbatim>\<open>null\<close>, or a value.\<close>

datatype 'a body_field = Undefined | Null | Value 'a

text \<open>\<^verbatim>\<open>Number(parentGroupId)\<close>; \<open>None\<close> is \<^verbatim>\<open>NaN\<close>.\<close>

fun Number :: "int body_field \<Rightarrow> int option" where
  "Number Undefined = None"
| "Number Null = Some 0"
| "Number (Value v) = Some v"

fun sqlParam :: "int body_field \<Rightarrow> int option" where
  "sqlParam (Value v) = Some v"
| "sqlParam _ = None"

text \<open>
  The recursive query of \<^verbatim>\<open>updateGroup\<close>:
  \<^verbatim>\<open>WITH RECURSIVE Descendants AS (SELECT id, parentGroupId FROM `group` WHERE id = ?
  UNION ALL SELECT g.id, g.parentGroupId FROM Descendants d JOIN `group` g
  ON d.id = g.parentGroupId) SELECT id FROM Descendants\<close>.
  Each round joins the rows of the round before with the table. The first argument is the
  number of rounds the store allows; the query fails (\<open>None\<close>) when rows are still
  produced after that many rounds.
\<close>

fun Descendants :: "nat \<Rightarrow> group_row list \<Rightarrow> group_row list \<Rightarrow> group_row list option" where
  "Descendants depth tbl [] = Some []"
| "Descendants 0 tbl (d # ds) = None"
| "Descendants (Suc depth) tbl (d # ds) =
     map_option (\<lambda>more. (d # ds) @ more)
       (Descendants depth tbl
          (concat (map (\<lambda>drow. filter (\<lambda>g. g_parentGroupId g = Some (g_id drow)) tbl)
                       (d # ds))))"

definition descendantQuery :: "nat \<Rightarrow> database \<Rightarrow> int \<Rightarrow> int list option" where
  "descendantQuery depth db groupId =
     map_option (map g_id)
       (Descendants depth (groupTable db) (filter (\<lambda>g. g_id g = groupId) (groupTable db)))"

definition update_groups :: "(group_row \<Rightarrow> bool) \<Rightarrow> (group_row \<Rightarrow> group_row) \<Rightarrow> database \<Rightarrow> database" where
  "update_groups cond f db = db\<lparr>groupTable := map (\<lambda>g. if cond g then f g else g) (groupTable db)\<rparr>"

text \<open>
  \<^verbatim>\<open>createGroup\<close>. The id of the new row and its time stamp are given by the store.
\<close>

definition createGroup ::
    "int \<Rightarrow> nat \<Rightarrow> string \<Rightarrow> int option \<Rightarrow> database \<times> 'v cache \<Rightarrow> response \<times> database \<times> 'v cache"
where
  "createGroup newId now groupName parentGroupId st =
     (case st of (db, c) \<Rightarrow>
        (Json 200 (Message ''Group created successfully!''),
         db\<lparr>groupTable := groupTable db
               @ [\<lparr>g_id = newId, g_groupName = groupName, g_parentGroupId = parentGroupId,
                   g_updatedAt = now\<rparr>]\<rparr>,
         clearKeysStartingWith ''groups_above_''
           (clearKeysStartingWith ''groups_below_'' (redis_del ''all_groups'' c))))"

definition updateGroup ::
    "nat \<Rightarrow> nat \<Rightarrow> int \<Rightarrow> string option \<Rightarrow> int body_field \<Rightarrow> database \<times> 'v cache
       \<Rightarrow> response \<times> database \<times> 'v cache"
where
  "updateGroup depth now groupIdParam groupName parentGroupId st =
     (case st of (db, c) \<Rightarrow>
       (case select_group_by_id db (Some groupIdParam) of
          [] \<Rightarrow> (Json 404 (ErrorBody ''Group not found.''), st)
        | existingGroup # _ \<Rightarrow>
           (case (if parentGroupId \<noteq> Undefined
                  then descendantQuery depth db (g_id existingGroup) else Some []) of
              None \<Rightarrow> (Json 500 (ErrorBody ''Internal server error''), st)
            | Some descendantIds \<Rightarrow>
               if parentGroupId \<noteq> Undefined
                  \<and> Number parentGroupId \<in> Some ` set descendantIds
               then (Json 400 (ErrorBody ''Circular reference detected.''), st)
               else if parentGroupId \<noteq> Undefined
                  \<and> parentGroupId = Value (g_id existingGroup)
               then (Json 400 (ErrorBody ''Error updating group.''), st)
               else
                 let db1 =
                   (if parentGroupId \<noteq> Undefined
                    then update_groups (\<lambda>g. Some (g_id g) = sqlParam parentGroupId)
                           (\<lambda>g. g\<lparr>g_updatedAt := now\<rparr>)
                           (update_groups (\<lambda>g. g_id g = g_id existingGroup)
                              (\<lambda>g. g\<lparr>g_parentGroupId := None\<rparr>) db)
                    else db)
                 in
                 if \<not> truthy groupName \<and> parentGroupId = Undefined
                 then (Json 400 (ErrorBody ''No fields to update.''), (db1, c))
                 else
                   (Json 200 (Message ''Group updated successfully!''),
                    update_groups (\<lambda>g. g_id g = groupIdParam)
                      (\<lambda>g. g\<lparr>g_groupName := (if truthy groupName then the groupName
                                                 else g_groupName g),
                              g_parentGroupId := (if parentGroupId \<noteq> Undefined
                                                    then sqlParam parentGroupId
                                                    else g_parentGroupId g)\<rparr>)
                      db1,
                    clearKeysStartingWith ''groups_above_''
                      (clearKeysStartingWith ''groups_below_''
                         (redis_del ''all_groups'' c))))))"

definition deleteGroup ::
    "int \<Rightarrow> database \<times> 'v cache \<Rightarrow> response \<times> database \<times> 'v cache"
where
  "deleteGroup groupIdParam st =
     (case st of (db, c) \<Rightarrow>
        (Json 200 (Message ''Group deleted successfully!''),
         db\<lparr>groupTable := filter (\<lambda>g. g_id g \<noteq> groupIdParam) (groupTable db)\<rparr>,
         clearKeysStartingWith ''groups_above_''
           (clearKeysStartingWith ''groups_below_'' (redis_del ''all_groups'' c))))"


section \<open>The person controllers\<close>



section \<open>Predicates and example data used in the statements\<close>

text \<open>
  The parent row that \<open>fetchparentGroupRecursive\<close> looks up for a group id: the first row
  whose id is the parent pointer of the first row with that id, if both exist.
\<close>

definition parentRow :: "database \<Rightarrow> int \<Rightarrow> group_row option" where
  "parentRow db i =
     (case select_group_by_id db (Some i) of
        [] \<Rightarrow> None
      | row # _ \<Rightarrow>
         (case select_group_by_id db (g_parentGroupId row) of
            [] \<Rightarrow> None
          | prow # _ \<Rightarrow> Some prow))"

text \<open>
  A single chain: at every node \<open>parentGroup\<close> is the one node of the parent row (same id
  and name) when that row exists, and is empty otherwise.
\<close>

fun ancestor_chain :: "database \<Rightarrow> GroupAbove \<Rightarrow> bool" where
  "ancestor_chain db (GroupAbove i n ps) =
     ((case parentRow db i of
         None \<Rightarrow> ps = []
       | Some prow \<Rightarrow> map (\<lambda>p. (ga_id p, ga_groupName p)) ps = [(g_id prow, g_groupName prow)])
      \<and> list_all (ancestor_chain db) ps)"

text \<open>
  A store with the groups Root (1), Child (2, under 1) and Other (3), and two persons in
  group 2.
\<close>

definition example_db :: database where
  "example_db =
     \<lparr>groupTable =
        [\<lparr>g_id = 1, g_groupName = ''Root'', g_parentGroupId = None, g_updatedAt = 0\<rparr>,
         \<lparr>g_id = 2, g_groupName = ''Child'', g_parentGroupId = Some 1, g_updatedAt = 0\<rparr>,
         \<lparr>g_id = 3, g_groupName = ''Other'', g_parentGroupId = None, g_updatedAt = 0\<rparr>],
      personTable =
        [\<lparr>p_id = 1, p_firstName = ''Alice'', p_lastName = ''A'', p_jobTitle = ''eng'',
          p_groupId = Some 2\<rparr>,
         \<lparr>p_id = 2, p_firstName = ''Bob'', p_lastName = ''B'', p_jobTitle = ''sales'',
          p_groupId = Some 2\<rparr>]\<rparr>"


text \<open>
  The cache that \<open>fetchGroupHierarchyAbove example_db 0 2\<close> leaves when it starts from an
  empty cache.
\<close>

definition example_cache :: "GroupAbove GroupOrError cache" where
  "example_cache =
     redis_setex 0 ''group_above_2}'' DEFAULT_EXPIRATION
       (IsGroup (GroupAbove 2 ''Child'' [GroupAbove 1 ''Root'' []])) Map.empty"


text \<open>The store after group 2 of \<open>example_db\<close> has been moved under group 3 at time 5.\<close>

definition example_db_moved :: database where
  "example_db_moved =
     \<lparr>groupTable =
        [\<lparr>g_id = 1, g_groupName = ''Root'', g_parentGroupId = None, g_updatedAt = 0\<rparr>,
         \<lparr>g_id = 2, g_groupName = ''Child'', g_parentGroupId = Some 3, g_updatedAt = 0\<rparr>,
         \<lparr>g_id = 3, g_groupName = ''Other'', g_parentGroupId = None, g_updatedAt = 5\<rparr>],
      personTable =
        [\<lparr>p_id = 1, p_firstName = ''Alice'', p_lastName = ''A'', p_jobTitle = ''eng'',
          p_groupId = Some 2\<rparr>,
         \<lparr>p_id = 2, p_firstName = ''Bob'', p_lastName = ''B'', p_jobTitle = ''sales'',
          p_groupId = Some 2\<rparr>]\<rparr>"

text \<open>
  The relation "is the parent of", on ids: \<open>(p, ch)\<close> when some row with id \<open>ch\<close> has the
  parent pointer \<open>p\<close>. The descendants of a group are what its reflexive transitive
  closure reaches.
\<close>

definition child_rel :: "group_row list \<Rightarrow> (int \<times> int) set" where
  "child_rel tbl = {(p, ch). \<exists>g\<in>set tbl. g_id g = ch \<and> g_parentGroupId g = Some p}"


text \<open>
  A property of every node of a subtree result, given as a predicate on the node's id and
  its persons.
\<close>

fun every_node :: "(int \<Rightarrow> Person list \<Rightarrow> bool) \<Rightarrow> GroupBelow \<Rightarrow> bool" where
  "every_node N (GroupBelow i n ps gs) = (N i ps \<and> list_all (every_node N) gs)"

text \<open>
  The cache agrees with such a property when every live group object stored under a key
  of the descendant traversal, for the filter sequence at hand, carries the id of its key
  and has the property at every node. An empty cache does.
\<close>

definition cache_inv ::
    "(int \<Rightarrow> Person list \<Rightarrow> bool) \<Rightarrow> nat \<Rightarrow> FilterCriteria list \<Rightarrow> GroupBelow GroupOrError cache \<Rightarrow> bool"
where
  "cache_inv N now fc c =
     (\<forall>groupId g. redis_get now c (cacheKey_below groupId fc) = Some (IsGroup g) \<longrightarrow>
        gb_id g = groupId \<and> every_node N g)"

text \<open>The value of a decimal digit, used to read a rendered number back.\<close>

definition digitVal :: "char \<Rightarrow> nat" where
  "digitVal ch = of_char ch - 48"


text \<open>
  A cache that holds a not-found object for group 2 under the key of the descendant
  traversal with no filters, stored at time 0.
\<close>

definition example_cache_below :: "GroupBelow GroupOrError cache" where
  "example_cache_below =
     redis_setex 0 ''groups_below_2_[]'' DEFAULT_EXPIRATION
       (IsError ''Group with ID 2 not found'') Map.empty"

text \<open>The node's group has a row in the store.\<close>

definition row_present :: "database \<Rightarrow> int \<Rightarrow> Person list \<Rightarrow> bool" where
  "row_present db i ps = (select_group_by_id db (Some i) \<noteq> [])"

text \<open>The subtree of group 1 of \<open>example_db\<close> with no filters.\<close>

definition example_subtree :: GroupBelow where
  "example_subtree =
     GroupBelow 1 ''Root'' []
       [GroupBelow 2 ''Child''
          [\<lparr>person_id = 1, firstName = ''Alice'', lastName = ''A'', jobTitle = ''eng''\<rparr>,
           \<lparr>person_id = 2, firstName = ''Bob'', lastName = ''B'', jobTitle = ''sales''\<rparr>]
          []]"






text \<open>The store after group 2 of \<open>example_db\<close> has been made a root (parent \<open>null\<close>).\<close>

definition example_db_detached :: database where
  "example_db_detached =
     \<lparr>groupTable =
        [\<lparr>g_id = 1, g_groupName = ''Root'', g_parentGroupId = None, g_updatedAt = 0\<rparr>,
         \<lparr>g_id = 2, g_groupName = ''Child'', g_parentGroupId = None, g_updatedAt = 0\<rparr>,
         \<lparr>g_id = 3, g_groupName = ''Other'', g_parentGroupId = None, g_updatedAt = 0\<rparr>],
      personTable =
        [\<lparr>p_id = 1, p_firstName = ''Alice'', p_lastName = ''A'', p_jobTitle = ''eng'',
          p_groupId = Some 2\<rparr>,
         \<lparr>p_id = 2, p_firstName = ''Bob'', p_lastName = ''B'', p_jobTitle = ''sales'',
          p_groupId = Some 2\<rparr>]\<rparr>"




section \<open>Properties of the keys\<close>

lemma below_key_shape_example:
  "cacheKey_below 12 [\<lparr>fc_jobTitle = Some ''eng'', fc_firstName = None, fc_firstNameFirst = False\<rparr>]
     = ''groups_below_12_['' @ ''{'' @ [CHR 0x22] @ ''jobTitle'' @ [CHR 0x22] @ '':''
         @ [CHR 0x22] @ ''eng'' @ [CHR 0x22] @ ''}'' @ '']''"
  by (simp add: cacheKey_below_def numberToString_def digits10.simps digitChar_def
      JSON_stringify_def stringifyCriteria_def stringifyProperty_def quoteJSONString_def
      quoteChar_def)

lemma key_shapes:
  "cacheKey_person personId = ''person_id_'' @ personId"
  "cacheKey_all_persons = ''all_persons''"
  "cacheKey_all_groups = ''all_groups''"
  "cacheKey_below groupId fc = ''groups_below_'' @ numberToString groupId @ ''_'' @ JSON_stringify fc"
  "cacheKey_above groupId = ''group_above_'' @ numberToString groupId @ ''}''"
  by (simp_all add: cacheKey_person_def cacheKey_all_persons_def cacheKey_all_groups_def
      cacheKey_below_def cacheKey_above_def)

lemma stringifyCriteria_insertion_order:
  "stringifyCriteria \<lparr>fc_jobTitle = Some ''a'', fc_firstName = Some ''b'', fc_firstNameFirst = True\<rparr>
     \<noteq> stringifyCriteria \<lparr>fc_jobTitle = Some ''a'', fc_firstName = Some ''b'', fc_firstNameFirst = False\<rparr>"
  by (simp add: stringifyCriteria_def stringifyProperty_def quoteJSONString_def quoteChar_def)

text \<open>
  C9. The key of the descendant traversal depends on the order of the filters: there are
  two filter sequences with the same predicates, in different orders, whose keys differ
  for every group id.
\<close>

theorem cacheKey_below_order_sensitive:
  "\<exists>fs fs'. mset fs = mset fs' \<and> (\<forall>groupId. cacheKey_below groupId fs \<noteq> cacheKey_below groupId fs')"
proof -
  let ?j = "\<lparr>fc_jobTitle = Some ''eng'', fc_firstName = None, fc_firstNameFirst = False\<rparr>"
  let ?f = "\<lparr>fc_jobTitle = None, fc_firstName = Some ''Ann'', fc_firstNameFirst = False\<rparr>"
  have m: "mset [?j, ?f] = mset [?f, ?j]"
    by (simp add: add.commute)
  have "JSON_stringify [?j, ?f] \<noteq> JSON_stringify [?f, ?j]"
    by (simp add: JSON_stringify_def stringifyCriteria_def stringifyProperty_def
        quoteJSONString_def quoteChar_def)
  then have "\<forall>groupId. cacheKey_below groupId [?j, ?f] \<noteq> cacheKey_below groupId [?f, ?j]"
    by (simp add: cacheKey_below_def)
  with m show ?thesis by blast
qed

text \<open>
  C2. The key of the ancestor traversal is not \<open>group_above_<id>\<close>: for group 7 the
  program builds \<open>group_above_7}\<close>, with a closing brace after the id.
\<close>

theorem cacheKey_above_trailing_brace:
  "cacheKey_above 7 = ''group_above_7}'' \<and> cacheKey_above 7 \<noteq> ''group_above_'' @ numberToString 7"
  by (simp add: cacheKey_above_def numberToString_def digits10.simps digitChar_def)

section \<open>The cache engine\<close>

lemma getOrSetCache_hit:
  "redis_get now c key = Some v \<Longrightarrow> getOrSetCache now key cb c = Some (Inr v, c)"
  by (simp add: getOrSetCache_def)

lemma getOrSetCache_miss:
  "redis_get now c key = None \<Longrightarrow>
   getOrSetCache now key cb c =
     (case cb c of
        None \<Rightarrow> None
      | Some (Inl err, c') \<Rightarrow> Some (Inl err, c')
      | Some (Inr freshData, c') \<Rightarrow>
          Some (Inr freshData, redis_setex now key DEFAULT_EXPIRATION freshData c'))"
  by (simp add: getOrSetCache_def)

lemma redis_get_setex_same:
  "later < now + seconds \<Longrightarrow> redis_get later (redis_setex now key seconds v c) key = Some v"
  by (simp add: redis_get_def redis_setex_def)

lemma redis_get_setex_other:
  "key' \<noteq> key \<Longrightarrow> redis_get later (redis_setex now key seconds v c) key' = redis_get later c key'"
  by (simp add: redis_get_def redis_setex_def)

text \<open>
  C4. When the computation throws on a miss, \<open>getOrSetCache\<close> gives the same error to
  its caller and leaves the cache exactly as the computation left it: nothing is stored
  under the key. A later call that still misses runs its computation again and stores the
  value it gets; and on a miss the cache differs from what the computation left only when
  the computation returned a value.
\<close>

theorem getOrSetCache_failure_not_cached:
  fixes c :: "'v cache"
  assumes miss: "redis_get now c key = None"
    and fails: "cb c = Some (Inl err, c')"
  shows "getOrSetCache now key cb c = Some (Inl err, c')
       \<and> (\<forall>later (retry :: 'v computation) v c''. redis_get later c' key = None \<longrightarrow> retry c' = Some (Inr v, c'') \<longrightarrow>
            getOrSetCache later key retry c'
              = Some (Inr v, redis_setex later key DEFAULT_EXPIRATION v c''))
       \<and> (\<forall>cb2 r c2 r' c''. getOrSetCache now key cb2 c = Some (r, c2) \<longrightarrow>
            cb2 c = Some (r', c'') \<longrightarrow> c2 \<noteq> c'' \<longrightarrow> (\<exists>v. r = Inr v \<and> r' = Inr v))"
proof (intro conjI allI impI)
  show "getOrSetCache now key cb c = Some (Inl err, c')"
    using miss fails by (simp add: getOrSetCache_miss)
next
  fix later and retry :: "'v computation" and v c''
  assume "redis_get later c' key = None" "retry c' = Some (Inr v, c'')"
  then show "getOrSetCache later key retry c'
              = Some (Inr v, redis_setex later key DEFAULT_EXPIRATION v c'')"
    by (simp add: getOrSetCache_miss)
next
  fix cb2 r c2 r' c''
  assume "getOrSetCache now key cb2 c = Some (r, c2)" "cb2 c = Some (r', c'')" "c2 \<noteq> c''"
  with miss show "\<exists>v. r = Inr v \<and> r' = Inr v"
    by (cases r') (auto simp: getOrSetCache_miss)
qed

theorem getOrSetCache_failure_not_cached_witness:
  "getOrSetCache 0 ''k'' (\<lambda>c. Some (Inl (Rejected ''store unreachable''), c)) (Map.empty :: nat cache)
     = Some (Inl (Rejected ''store unreachable''), Map.empty)
   \<and> getOrSetCache 1 ''k'' (\<lambda>c. Some (Inr 5, c)) (Map.empty :: nat cache)
     = Some (Inr 5, redis_setex 1 ''k'' DEFAULT_EXPIRATION 5 Map.empty)"
  using getOrSetCache_failure_not_cached
          [of 0 "Map.empty :: nat cache" "''k''"
              "\<lambda>c. Some (Inl (Rejected ''store unreachable''), c)"
              "Rejected ''store unreachable''" Map.empty]
  by (simp add: redis_get_def)

section \<open>The ancestor traversal and the cache\<close>

lemma select_example_db:
  "select_group_by_id example_db (Some 1)
     = [\<lparr>g_id = 1, g_groupName = ''Root'', g_parentGroupId = None, g_updatedAt = 0\<rparr>]"
  "select_group_by_id example_db (Some 2)
     = [\<lparr>g_id = 2, g_groupName = ''Child'', g_parentGroupId = Some 1, g_updatedAt = 0\<rparr>]"
  "select_group_by_id example_db (Some 3)
     = [\<lparr>g_id = 3, g_groupName = ''Other'', g_parentGroupId = None, g_updatedAt = 0\<rparr>]"
  "select_group_by_id example_db (Some 9) = []"
  "select_group_by_id db None = []"
  by (simp_all add: example_db_def select_group_by_id_def)

lemma cacheKey_above_examples:
  "cacheKey_above 1 = ''group_above_1}''"
  "cacheKey_above 2 = ''group_above_2}''"
  "cacheKey_above 9 = ''group_above_9}''"
  by (simp_all add: cacheKey_above_def numberToString_def digits10.simps digitChar_def)

lemma fetchparentGroupRecursive_example:
  "fetchparentGroupRecursive example_db 2 (GroupAbove 2 ''Child'' [])
     = Some (GroupAbove 2 ''Child'' [GroupAbove 1 ''Root'' []])"
  by (simp add: fetchparentGroupRecursive.simps select_example_db)

lemma fetchGroupHierarchyAbove_example:
  "fetchGroupHierarchyAbove example_db 0 2 Map.empty
     = Some (Inr (IsGroup (GroupAbove 2 ''Child'' [GroupAbove 1 ''Root'' []])),
             redis_setex 0 ''group_above_2}'' DEFAULT_EXPIRATION
               (IsGroup (GroupAbove 2 ''Child'' [GroupAbove 1 ''Root'' []])) Map.empty)"
  by (simp add: fetchGroupHierarchyAbove_def getOrSetCache_def redis_get_def
      select_example_db fetchparentGroupRecursive_example cacheKey_above_examples)





text \<open>
  C10. When the group is absent, the traversal's computation returns the not-found object
  as a value, and \<open>getOrSetCache\<close> stores it under the traversal's key like any other
  result. Until the entry expires, every call with that key returns the stored not-found
  object and leaves the cache as it is, whatever the store holds by then.
\<close>

theorem notFound_is_cached:
  fixes ca :: "GroupAbove GroupOrError cache" and cb :: "GroupBelow GroupOrError cache"
  assumes absent: "select_group_by_id db (Some groupId) = []"
    and missA: "redis_get now ca (cacheKey_above groupId) = None"
    and missB: "redis_get now cb (cacheKey_below groupId fc) = None"
  shows "fetchGroupHierarchyAbove db now groupId ca
           = Some (Inr (IsError (notFound groupId)),
                   redis_setex now (cacheKey_above groupId) DEFAULT_EXPIRATION
                     (IsError (notFound groupId)) ca)
       \<and> (\<forall>later db'. later < now + DEFAULT_EXPIRATION \<longrightarrow>
             fetchGroupHierarchyAbove db' later groupId
               (redis_setex now (cacheKey_above groupId) DEFAULT_EXPIRATION
                  (IsError (notFound groupId)) ca)
             = Some (Inr (IsError (notFound groupId)),
                     redis_setex now (cacheKey_above groupId) DEFAULT_EXPIRATION
                       (IsError (notFound groupId)) ca))
       \<and> fetchGroupHierarchyBelow (Suc fuel) db now groupId fc cb
           = Some (Inr (IsError (notFound groupId)),
                   redis_setex now (cacheKey_below groupId fc) DEFAULT_EXPIRATION
                     (IsError (notFound groupId)) cb)
       \<and> (\<forall>later db' fuel'. later < now + DEFAULT_EXPIRATION \<longrightarrow>
             fetchGroupHierarchyBelow fuel' db' later groupId fc
               (redis_setex now (cacheKey_below groupId fc) DEFAULT_EXPIRATION
                  (IsError (notFound groupId)) cb)
             = Some (Inr (IsError (notFound groupId)),
                     redis_setex now (cacheKey_below groupId fc) DEFAULT_EXPIRATION
                       (IsError (notFound groupId)) cb))"
proof (intro conjI allI impI)
  show "fetchGroupHierarchyAbove db now groupId ca
           = Some (Inr (IsError (notFound groupId)),
                   redis_setex now (cacheKey_above groupId) DEFAULT_EXPIRATION
                     (IsError (notFound groupId)) ca)"
    using absent missA by (simp add: fetchGroupHierarchyAbove_def getOrSetCache_miss)
next
  fix later db'
  assume "later < now + DEFAULT_EXPIRATION"
  then show "fetchGroupHierarchyAbove db' later groupId
               (redis_setex now (cacheKey_above groupId) DEFAULT_EXPIRATION
                  (IsError (notFound groupId)) ca)
             = Some (Inr (IsError (notFound groupId)),
                     redis_setex now (cacheKey_above groupId) DEFAULT_EXPIRATION
                       (IsError (notFound groupId)) ca)"
    by (simp add: fetchGroupHierarchyAbove_def getOrSetCache_hit redis_get_setex_same)
next
  show "fetchGroupHierarchyBelow (Suc fuel) db now groupId fc cb
           = Some (Inr (IsError (notFound groupId)),
                   redis_setex now (cacheKey_below groupId fc) DEFAULT_EXPIRATION
                     (IsError (notFound groupId)) cb)"
    using absent missB by (simp add: getOrSetCache_miss)
next
  fix later db' fuel'
  assume "later < now + DEFAULT_EXPIRATION"
  then show "fetchGroupHierarchyBelow fuel' db' later groupId fc
               (redis_setex now (cacheKey_below groupId fc) DEFAULT_EXPIRATION
                  (IsError (notFound groupId)) cb)
             = Some (Inr (IsError (notFound groupId)),
                     redis_setex now (cacheKey_below groupId fc) DEFAULT_EXPIRATION
                       (IsError (notFound groupId)) cb)"
    by (cases fuel') (simp_all add: getOrSetCache_hit redis_get_setex_same)
qed

theorem notFound_is_cached_witness:
  "fetchGroupHierarchyAbove example_db 0 9 Map.empty
     = Some (Inr (IsError ''Group with ID 9 not found''),
             redis_setex 0 ''group_above_9}'' DEFAULT_EXPIRATION
               (IsError ''Group with ID 9 not found'') Map.empty)
   \<and> fetchGroupHierarchyAbove
        (example_db\<lparr>groupTable :=
           [\<lparr>g_id = 9, g_groupName = ''New'', g_parentGroupId = None, g_updatedAt = 5\<rparr>]\<rparr>)
        10 9
        (redis_setex 0 ''group_above_9}'' DEFAULT_EXPIRATION
           (IsError ''Group with ID 9 not found'') Map.empty)
     = Some (Inr (IsError ''Group with ID 9 not found''),
             redis_setex 0 ''group_above_9}'' DEFAULT_EXPIRATION
               (IsError ''Group with ID 9 not found'') Map.empty)
   \<and> fetchGroupHierarchyBelow 0
        (example_db\<lparr>groupTable :=
           [\<lparr>g_id = 9, g_groupName = ''New'', g_parentGroupId = None, g_updatedAt = 5\<rparr>]\<rparr>)
        10 9 []
        (redis_setex 0 (cacheKey_below 9 []) DEFAULT_EXPIRATION
           (IsError ''Group with ID 9 not found'') Map.empty)
     = Some (Inr (IsError ''Group with ID 9 not found''),
             redis_setex 0 (cacheKey_below 9 []) DEFAULT_EXPIRATION
               (IsError ''Group with ID 9 not found'') Map.empty)"
proof -
  have nf: "notFound 9 = ''Group with ID 9 not found''"
    by (simp add: notFound_def numberToString_def digits10.simps digitChar_def)
  have missA: "redis_get 0 (Map.empty :: GroupAbove GroupOrError cache) (cacheKey_above 9) = None"
    and missB: "redis_get 0 (Map.empty :: GroupBelow GroupOrError cache) (cacheKey_below 9 []) = None"
    by (simp_all add: redis_get_def)
  have lt: "(10::nat) < 0 + DEFAULT_EXPIRATION"
    by (simp add: DEFAULT_EXPIRATION_def)
  note t = notFound_is_cached [OF select_example_db(4) missA missB, of 0,
      unfolded nf cacheKey_above_examples]
  from t lt show ?thesis by blast
qed

section \<open>The shape of the ancestor chain\<close>

lemma select_group_by_id_Cons:
  assumes "select_group_by_id db i = row # others"
  shows "i = Some (g_id row)" and "row \<in> set (groupTable db)"
proof -
  from assms obtain j where j: "i = Some j"
    by (cases i) (simp_all add: select_group_by_id_def)
  with assms have "row \<in> set (filter (\<lambda>g. g_id g = j) (groupTable db))"
    by (simp add: select_group_by_id_def)
  with j show "i = Some (g_id row)" and "row \<in> set (groupTable db)"
    by simp_all
qed

lemma fetchparentGroupRecursive_chain:
  assumes "fetchparentGroupRecursive db currentGroupId currentGroup = Some y"
  shows "\<exists>ps. y = GroupAbove (ga_id currentGroup) (ga_groupName currentGroup)
                    (ga_parentGroup currentGroup @ ps)
            \<and> list_all (ancestor_chain db) ps
            \<and> (case parentRow db currentGroupId of
                  None \<Rightarrow> ps = []
                | Some prow \<Rightarrow>
                    map (\<lambda>p. (ga_id p, ga_groupName p)) ps = [(g_id prow, g_groupName prow)])"
proof (rule fetchparentGroupRecursive.raw_induct
    [where P = "\<lambda>db cid cur y. \<exists>ps. y = GroupAbove (ga_id cur) (ga_groupName cur)
                    (ga_parentGroup cur @ ps)
            \<and> list_all (ancestor_chain db) ps
            \<and> (case parentRow db cid of
                  None \<Rightarrow> ps = []
                | Some prow \<Rightarrow>
                    map (\<lambda>p. (ga_id p, ga_groupName p)) ps = [(g_id prow, g_groupName prow)])",
     OF _ assms], goal_cases)
  case (1 rec db cid cur y)
  show ?case
  proof (cases "select_group_by_id db (Some cid)")
    case Nil
    with 1(2) show ?thesis by (simp add: parentRow_def)
  next
    case (Cons row others)
    note row = this
    show ?thesis
    proof (cases "select_group_by_id db (g_parentGroupId row)")
      case Nil
      with row 1(2) show ?thesis by (simp add: parentRow_def)
    next
      case (Cons prow pothers)
      with row 1(2) obtain parentGroup where
        call: "rec db (g_id prow) (GroupAbove (g_id prow) (g_groupName prow) []) = Some parentGroup"
        and y: "y = GroupAbove (ga_id cur) (ga_groupName cur) (ga_parentGroup cur @ [parentGroup])"
        by (auto simp: bind_eq_Some_conv)
      from 1(1) [OF call] obtain ps where
        ps: "parentGroup = GroupAbove (g_id prow) (g_groupName prow) ps"
          "list_all (ancestor_chain db) ps"
          "case parentRow db (g_id prow) of
             None \<Rightarrow> ps = []
           | Some pp \<Rightarrow> map (\<lambda>p. (ga_id p, ga_groupName p)) ps = [(g_id pp, g_groupName pp)]"
        by auto
      then have "ancestor_chain db parentGroup" by simp
      moreover have "parentRow db cid = Some prow"
        using row Cons by (simp add: parentRow_def)
      ultimately show ?thesis
        using y ps(1) by simp
    qed
  qed
qed

lemma fetchparentGroupRecursive_returns:
  assumes rank: "\<forall>row\<in>set (groupTable db). \<forall>p. g_parentGroupId row = Some p \<longrightarrow> h p < (h (g_id row) :: nat)"
  shows "\<exists>y. fetchparentGroupRecursive db currentGroupId currentGroup = Some y"
proof (induction "h currentGroupId" arbitrary: currentGroupId currentGroup rule: less_induct)
  case less
  show ?case
  proof (cases "select_group_by_id db (Some currentGroupId)")
    case Nil
    then show ?thesis by (subst fetchparentGroupRecursive.simps) simp
  next
    case (Cons row others)
    note row = this
    show ?thesis
    proof (cases "select_group_by_id db (g_parentGroupId row)")
      case Nil
      with row show ?thesis by (subst fetchparentGroupRecursive.simps) simp
    next
      case (Cons prow pothers)
      from select_group_by_id_Cons [OF row] have r: "g_id row = currentGroupId" "row \<in> set (groupTable db)"
        by simp_all
      from select_group_by_id_Cons(1) [OF Cons] have "g_parentGroupId row = Some (g_id prow)" .
      with rank r have "h (g_id prow) < h currentGroupId" by auto
      from less [OF this] obtain y where
        "fetchparentGroupRecursive db (g_id prow) (GroupAbove (g_id prow) (g_groupName prow) []) = Some y"
        by blast
      with row Cons show ?thesis by (subst fetchparentGroupRecursive.simps) simp
    qed
  qed
qed

text \<open>
  What the computation itself builds. For a group present in the store, on a miss: a
  group object that \<open>fetchGroupHierarchyAbove\<close> returns carries the id and name of the group's row and is a
  single chain, that is, at every node \<open>parentGroup\<close> holds exactly the node of the parent
  row when that row exists and is empty when the parent id is null or matches no row; a
  group without a parent row gets the object with an empty \<open>parentGroup\<close>; and when the
  parent pointers of the store are acyclic (they decrease a rank) the call returns a group
  object.
\<close>

theorem fetchGroupHierarchyAbove_single_chain:
  assumes miss: "redis_get now c (cacheKey_above groupId) = None"
    and present: "select_group_by_id db (Some groupId) = groupRow # others"
  shows "(\<forall>g c'. fetchGroupHierarchyAbove db now groupId c = Some (Inr (IsGroup g), c') \<longrightarrow>
            ga_id g = groupId \<and> ga_groupName g = g_groupName groupRow \<and> ancestor_chain db g)
       \<and> (parentRow db groupId = None \<longrightarrow>
            fetchGroupHierarchyAbove db now groupId c
              = Some (Inr (IsGroup (GroupAbove groupId (g_groupName groupRow) [])),
                      redis_setex now (cacheKey_above groupId) DEFAULT_EXPIRATION
                        (IsGroup (GroupAbove groupId (g_groupName groupRow) [])) c))
       \<and> ((\<forall>row\<in>set (groupTable db). \<forall>p. g_parentGroupId row = Some p \<longrightarrow> h p < (h (g_id row) :: nat)) \<longrightarrow>
            (\<exists>g c'. fetchGroupHierarchyAbove db now groupId c = Some (Inr (IsGroup g), c')))"
proof (intro conjI allI impI)
  have gid: "g_id groupRow = groupId"
    using select_group_by_id_Cons(1) [OF present] by simp
  {
    fix g c'
    assume "fetchGroupHierarchyAbove db now groupId c = Some (Inr (IsGroup g), c')"
    with miss present have
      "fetchparentGroupRecursive db groupId (GroupAbove (g_id groupRow) (g_groupName groupRow) []) = Some g"
      by (auto simp: fetchGroupHierarchyAbove_def getOrSetCache_miss split: option.splits)
    from fetchparentGroupRecursive_chain [OF this] gid
    show "ga_id g = groupId" "ga_groupName g = g_groupName groupRow" "ancestor_chain db g"
      by auto
  }
  {
    assume "parentRow db groupId = None"
    with present have "select_group_by_id db (g_parentGroupId groupRow) = []"
      by (simp add: parentRow_def split: list.splits)
    with present have
      "fetchparentGroupRecursive db groupId (GroupAbove (g_id groupRow) (g_groupName groupRow) [])
         = Some (GroupAbove groupId (g_groupName groupRow) [])"
      by (subst fetchparentGroupRecursive.simps) (simp add: gid)
    with miss present show "fetchGroupHierarchyAbove db now groupId c
              = Some (Inr (IsGroup (GroupAbove groupId (g_groupName groupRow) [])),
                      redis_setex now (cacheKey_above groupId) DEFAULT_EXPIRATION
                        (IsGroup (GroupAbove groupId (g_groupName groupRow) [])) c)"
      by (simp add: fetchGroupHierarchyAbove_def getOrSetCache_miss)
  }
  {
    assume "\<forall>row\<in>set (groupTable db). \<forall>p. g_parentGroupId row = Some p \<longrightarrow> h p < h (g_id row)"
    from fetchparentGroupRecursive_returns [OF this] obtain y where
      "fetchparentGroupRecursive db groupId (GroupAbove (g_id groupRow) (g_groupName groupRow) []) = Some y"
      by blast
    with miss present show "\<exists>g c'. fetchGroupHierarchyAbove db now groupId c = Some (Inr (IsGroup g), c')"
      by (simp add: fetchGroupHierarchyAbove_def getOrSetCache_miss)
  }
qed

theorem fetchGroupHierarchyAbove_single_chain_witness:
  "ancestor_chain example_db (GroupAbove 2 ''Child'' [GroupAbove 1 ''Root'' []])
   \<and> fetchGroupHierarchyAbove example_db 0 1 Map.empty
       = Some (Inr (IsGroup (GroupAbove 1 ''Root'' [])),
               redis_setex 0 ''group_above_1}'' DEFAULT_EXPIRATION
                 (IsGroup (GroupAbove 1 ''Root'' [])) Map.empty)
   \<and> (\<exists>g c'. fetchGroupHierarchyAbove example_db 0 2 Map.empty = Some (Inr (IsGroup g), c'))"
proof -
  have miss: "redis_get 0 (Map.empty :: GroupAbove GroupOrError cache) (cacheKey_above k) = None" for k
    by (simp add: redis_get_def)
  have none: "parentRow example_db 1 = None"
    by (simp add: parentRow_def select_example_db)
  have rank: "\<forall>row\<in>set (groupTable example_db). \<forall>p. g_parentGroupId row = Some p \<longrightarrow> nat p < nat (g_id row)"
    by (simp add: example_db_def)
  note t1 = fetchGroupHierarchyAbove_single_chain [OF miss select_example_db(1), where h = nat,
      unfolded cacheKey_above_examples]
  note t2 = fetchGroupHierarchyAbove_single_chain [OF miss select_example_db(2), where h = nat]
  from t2 fetchGroupHierarchyAbove_example
  have "ancestor_chain example_db (GroupAbove 2 ''Child'' [GroupAbove 1 ''Root'' []])"
    by blast
  moreover from t1 none have "fetchGroupHierarchyAbove example_db 0 1 Map.empty
       = Some (Inr (IsGroup (GroupAbove 1 ''Root'' [])),
               redis_setex 0 ''group_above_1}'' DEFAULT_EXPIRATION
                 (IsGroup (GroupAbove 1 ''Root'' [])) Map.empty)"
    by simp
  moreover from t2 rank
  have "\<exists>g c'. fetchGroupHierarchyAbove example_db 0 2 Map.empty = Some (Inr (IsGroup g), c')"
    by blast
  ultimately show ?thesis by blast
qed

section \<open>Invalidation after a group write\<close>


lemma invalidation_keeps_above:
  "clearKeysStartingWith ''groups_above_''
     (clearKeysStartingWith ''groups_below_'' (redis_del ''all_groups'' c))
     (cacheKey_above groupId) = c (cacheKey_above groupId)"
  by (simp add: clearKeysStartingWith_def redis_del_def cacheKey_above_def)

lemma Descendants_pos:
  assumes "0 < depth"
  shows "Descendants depth tbl (d # ds) =
     map_option (\<lambda>more. (d # ds) @ more)
       (Descendants (depth - 1) tbl
          (concat (map (\<lambda>drow. filter (\<lambda>g. g_parentGroupId g = Some (g_id drow)) tbl)
                       (d # ds))))"
proof (cases depth)
  case 0
  with assms show ?thesis by simp
next
  case (Suc n)
  show ?thesis unfolding Suc by (simp only: Descendants.simps diff_Suc_1)
qed

lemma updateGroup_example:
  "updateGroup 1000 5 2 None (Value 3) (example_db, c)
     = (Json 200 (Message ''Group updated successfully!''), example_db_moved,
        clearKeysStartingWith ''groups_above_''
          (clearKeysStartingWith ''groups_below_'' (redis_del ''all_groups'' c)))"
proof -
  have q: "descendantQuery 1000 example_db 2 = Some [2]"
    by (simp add: descendantQuery_def example_db_def Descendants_pos)
  show ?thesis
    by (simp add: updateGroup_def select_example_db q truthy_def)
       (simp add: example_db_def example_db_moved_def update_groups_def)
qed

text \<open>
  C1. The invalidation after a group write does not remove the entries of the ancestor
  traversal. Starting from an empty cache, \<open>fetchGroupHierarchyAbove\<close> for group 2 stores
  the chain 2, 1; the successful update that moves group 2 under group 3 leaves that entry
  in place, and the next call for group 2 returns the chain 2, 1 from the cache, while the
  store now gives the chain 2, 3.
\<close>

theorem ancestor_entry_survives_updateGroup:
  "fetchGroupHierarchyAbove example_db 0 2 Map.empty
     = Some (Inr (IsGroup (GroupAbove 2 ''Child'' [GroupAbove 1 ''Root'' []])), example_cache)
   \<and> fst (updateGroup 1000 5 2 None (Value 3) (example_db, example_cache))
       = Json 200 (Message ''Group updated successfully!'')
   \<and> fst (snd (updateGroup 1000 5 2 None (Value 3) (example_db, example_cache)))
       = example_db_moved
   \<and> map_option fst
       (fetchGroupHierarchyAbove example_db_moved 6 2
          (snd (snd (updateGroup 1000 5 2 None (Value 3) (example_db, example_cache)))))
       = Some (Inr (IsGroup (GroupAbove 2 ''Child'' [GroupAbove 1 ''Root'' []])))
   \<and> map_option fst (fetchGroupHierarchyAbove example_db_moved 6 2 Map.empty)
       = Some (Inr (IsGroup (GroupAbove 2 ''Child'' [GroupAbove 3 ''Other'' []])))"
proof -
  have sel: "select_group_by_id example_db_moved (Some 2)
               = [\<lparr>g_id = 2, g_groupName = ''Child'', g_parentGroupId = Some 3, g_updatedAt = 0\<rparr>]"
    "select_group_by_id example_db_moved (Some 3)
               = [\<lparr>g_id = 3, g_groupName = ''Other'', g_parentGroupId = None, g_updatedAt = 5\<rparr>]"
    by (simp_all add: example_db_moved_def select_group_by_id_def)
  have fresh: "fetchparentGroupRecursive example_db_moved 2 (GroupAbove 2 ''Child'' [])
     = Some (GroupAbove 2 ''Child'' [GroupAbove 3 ''Other'' []])"
    by (simp add: fetchparentGroupRecursive.simps sel select_example_db)
  have stale: "redis_get 6
       (clearKeysStartingWith ''groups_above_''
          (clearKeysStartingWith ''groups_below_'' (redis_del ''all_groups'' example_cache)))
       ''group_above_2}''
     = Some (IsGroup (GroupAbove 2 ''Child'' [GroupAbove 1 ''Root'' []]))"
    by (simp add: clearKeysStartingWith_def redis_del_def redis_get_def example_cache_def
        redis_setex_def DEFAULT_EXPIRATION_def)
  have "map_option fst
       (fetchGroupHierarchyAbove example_db_moved 6 2
          (clearKeysStartingWith ''groups_above_''
            (clearKeysStartingWith ''groups_below_'' (redis_del ''all_groups'' example_cache))))
       = Some (Inr (IsGroup (GroupAbove 2 ''Child'' [GroupAbove 1 ''Root'' []])))"
    by (simp add: fetchGroupHierarchyAbove_def cacheKey_above_examples
        getOrSetCache_hit [OF stale])
  moreover have "map_option fst (fetchGroupHierarchyAbove example_db_moved 6 2 Map.empty)
       = Some (Inr (IsGroup (GroupAbove 2 ''Child'' [GroupAbove 3 ''Other'' []])))"
    by (simp add: fetchGroupHierarchyAbove_def getOrSetCache_def redis_get_def sel fresh)
  ultimately show ?thesis
    by (simp add: updateGroup_example fetchGroupHierarchyAbove_example example_cache_def)
qed

lemma updateGroup_detach_example:
  "updateGroup 1000 5 2 None Null (example_db, c)
     = (Json 200 (Message ''Group updated successfully!''), example_db_detached,
        clearKeysStartingWith ''groups_above_''
          (clearKeysStartingWith ''groups_below_'' (redis_del ''all_groups'' c)))"
proof -
  have q: "descendantQuery 1000 example_db 2 = Some [2]"
    by (simp add: descendantQuery_def example_db_def Descendants_pos)
  show ?thesis
    by (simp add: updateGroup_def select_example_db q truthy_def)
       (simp add: example_db_def example_db_detached_def update_groups_def)
qed

text \<open>
  C8. A group without a parent is served with a non-empty \<open>parentGroup\<close>. Starting from an
  empty cache, \<open>fetchGroupHierarchyAbove\<close> for group 2 stores the chain 2, 1; the
  successful update that sets the parent of group 2 to \<open>null\<close> leaves that entry in place
  (the invalidation clears another prefix), and the next call for group 2 returns the
  chain 2, 1, which is not the chain of the store: group 2 has no parent row there.
\<close>

theorem parentless_group_served_with_parent:
  "fetchGroupHierarchyAbove example_db 0 2 Map.empty
     = Some (Inr (IsGroup (GroupAbove 2 ''Child'' [GroupAbove 1 ''Root'' []])), example_cache)
   \<and> fst (updateGroup 1000 5 2 None Null (example_db, example_cache))
       = Json 200 (Message ''Group updated successfully!'')
   \<and> fst (snd (updateGroup 1000 5 2 None Null (example_db, example_cache)))
       = example_db_detached
   \<and> select_group_by_id example_db_detached (Some 2)
       = [\<lparr>g_id = 2, g_groupName = ''Child'', g_parentGroupId = None, g_updatedAt = 0\<rparr>]
   \<and> parentRow example_db_detached 2 = None
   \<and> map_option fst
       (fetchGroupHierarchyAbove example_db_detached 6 2
          (snd (snd (updateGroup 1000 5 2 None Null (example_db, example_cache)))))
       = Some (Inr (IsGroup (GroupAbove 2 ''Child'' [GroupAbove 1 ''Root'' []])))
   \<and> \<not> ancestor_chain example_db_detached (GroupAbove 2 ''Child'' [GroupAbove 1 ''Root'' []])
   \<and> map_option fst (fetchGroupHierarchyAbove example_db_detached 6 2 Map.empty)
       = Some (Inr (IsGroup (GroupAbove 2 ''Child'' [])))"
proof -
  have sel: "select_group_by_id example_db_detached (Some 2)
       = [\<lparr>g_id = 2, g_groupName = ''Child'', g_parentGroupId = None, g_updatedAt = 0\<rparr>]"
    by (simp add: example_db_detached_def select_group_by_id_def)
  have none: "parentRow example_db_detached 2 = None"
    by (simp add: parentRow_def sel select_example_db(5))
  have fresh: "fetchparentGroupRecursive example_db_detached 2 (GroupAbove 2 ''Child'' [])
     = Some (GroupAbove 2 ''Child'' [])"
    by (simp add: fetchparentGroupRecursive.simps sel select_example_db(5))
  have stale: "redis_get 6
       (clearKeysStartingWith ''groups_above_''
          (clearKeysStartingWith ''groups_below_'' (redis_del ''all_groups'' example_cache)))
       ''group_above_2}''
     = Some (IsGroup (GroupAbove 2 ''Child'' [GroupAbove 1 ''Root'' []]))"
    by (simp add: clearKeysStartingWith_def redis_del_def redis_get_def example_cache_def
        redis_setex_def DEFAULT_EXPIRATION_def)
  have served: "map_option fst
       (fetchGroupHierarchyAbove example_db_detached 6 2
          (clearKeysStartingWith ''groups_above_''
            (clearKeysStartingWith ''groups_below_'' (redis_del ''all_groups'' example_cache))))
       = Some (Inr (IsGroup (GroupAbove 2 ''Child'' [GroupAbove 1 ''Root'' []])))"
    by (simp add: fetchGroupHierarchyAbove_def cacheKey_above_examples
        getOrSetCache_hit [OF stale])
  have recomputed: "map_option fst (fetchGroupHierarchyAbove example_db_detached 6 2 Map.empty)
       = Some (Inr (IsGroup (GroupAbove 2 ''Child'' [])))"
    by (simp add: fetchGroupHierarchyAbove_def getOrSetCache_def redis_get_def sel fresh)
  have wrong: "\<not> ancestor_chain example_db_detached (GroupAbove 2 ''Child'' [GroupAbove 1 ''Root'' []])"
    by (simp add: none)
  from sel none served recomputed wrong show ?thesis
    by (simp add: updateGroup_detach_example fetchGroupHierarchyAbove_example example_cache_def)
qed


section \<open>The cycle check of updateGroup\<close>

lemma next_round_ids:
  "g_id ` set (concat (map (\<lambda>drow. filter (\<lambda>g. g_parentGroupId g = Some (g_id drow)) tbl) lvl))
     = child_rel tbl `` (g_id ` set lvl)"
  by (auto simp: child_rel_def)

lemma rtrancl_Image_step: "S \<union> R\<^sup>* `` (R `` S) = R\<^sup>* `` S"
proof
  show "S \<union> R\<^sup>* `` (R `` S) \<subseteq> R\<^sup>* `` S"
    by (auto intro: converse_rtrancl_into_rtrancl)
  show "R\<^sup>* `` S \<subseteq> S \<union> R\<^sup>* `` (R `` S)"
  proof
    fix y assume "y \<in> R\<^sup>* `` S"
    then obtain x where x: "x \<in> S" "(x, y) \<in> R\<^sup>*" by blast
    from x(2) show "y \<in> S \<union> R\<^sup>* `` (R `` S)"
    proof (cases rule: converse_rtranclE)
      case base
      with x(1) show ?thesis by simp
    next
      case (step z)
      with x(1) show ?thesis by blast
    qed
  qed
qed

lemma Descendants_ids:
  "Descendants depth tbl lvl = Some ds \<Longrightarrow> g_id ` set ds = (child_rel tbl)\<^sup>* `` (g_id ` set lvl)"
proof (induction depth tbl lvl arbitrary: ds rule: Descendants.induct)
  case (1 depth tbl)
  then show ?case by simp
next
  case (2 tbl d ds')
  then show ?case by simp
next
  case (3 depth tbl d ds')
  let ?next = "concat (map (\<lambda>drow. filter (\<lambda>g. g_parentGroupId g = Some (g_id drow)) tbl) (d # ds'))"
  from "3.prems" obtain more where
    more: "Descendants depth tbl ?next = Some more" and ds: "ds = (d # ds') @ more"
    by auto
  from "3.IH" [OF more] have "g_id ` set more = (child_rel tbl)\<^sup>* `` (g_id ` set ?next)" .
  also have "g_id ` set ?next = child_rel tbl `` (g_id ` set (d # ds'))"
    by (rule next_round_ids)
  finally have "g_id ` set ds
      = g_id ` set (d # ds') \<union> (child_rel tbl)\<^sup>* `` (child_rel tbl `` (g_id ` set (d # ds')))"
    using ds by (simp add: image_Un)
  then show ?case by (simp only: rtrancl_Image_step)
qed

lemma descendantQuery_ids:
  assumes "descendantQuery depth db groupId = Some descendantIds"
    and "select_group_by_id db (Some groupId) = existingGroup # others"
  shows "set descendantIds = (child_rel (groupTable db))\<^sup>* `` {groupId}"
proof -
  let ?start = "filter (\<lambda>g. g_id g = groupId) (groupTable db)"
  from assms(2) have "?start \<noteq> []"
    by (simp add: select_group_by_id_def)
  then have "g_id ` set ?start = {groupId}"
    by (auto simp: filter_empty_conv)
  moreover from assms(1) obtain ds where
    "Descendants depth (groupTable db) ?start = Some ds" "descendantIds = map g_id ds"
    by (auto simp: descendantQuery_def)
  ultimately show ?thesis
    using Descendants_ids [of depth "groupTable db" ?start ds] by simp
qed

lemma Descendants_completes:
  assumes "\<forall>row\<in>set tbl. \<forall>p. g_parentGroupId row = Some p \<longrightarrow> h p < (h (g_id row) :: nat)"
    and "\<forall>row\<in>set tbl. h (g_id row) \<le> m"
    and "set lvl \<subseteq> set tbl"
    and "\<forall>row\<in>set lvl. m - h (g_id row) < depth"
  shows "Descendants depth tbl lvl \<noteq> None"
  using assms
proof (induction depth tbl lvl rule: Descendants.induct)
  case (1 depth tbl)
  then show ?case by simp
next
  case (2 tbl d ds)
  have "d \<in> set (d # ds)" by simp
  with "2.prems"(4) have "m - h (g_id d) < 0" by blast
  then show ?case by simp
next
  case (3 depth tbl d ds)
  note rank = "3.prems"(1) and bound = "3.prems"(2)
  let ?next = "concat (map (\<lambda>drow. filter (\<lambda>g. g_parentGroupId g = Some (g_id drow)) tbl) (d # ds))"
  have sub: "set ?next \<subseteq> set tbl" by auto
  have "\<forall>row\<in>set ?next. m - h (g_id row) < depth"
  proof
    fix row assume "row \<in> set ?next"
    then obtain drow where drow: "drow \<in> set (d # ds)" "row \<in> set tbl"
      "g_parentGroupId row = Some (g_id drow)"
      by auto
    from rank drow(2,3) have "h (g_id drow) < h (g_id row)" by blast
    moreover from bound drow(2) have "h (g_id row) \<le> m" by blast
    moreover from "3.prems"(4) drow(1) have "m - h (g_id drow) < Suc depth" by blast
    ultimately show "m - h (g_id row) < depth" by arith
  qed
  with "3.IH" rank bound sub have "Descendants depth tbl ?next \<noteq> None" by blast
  then show ?case by auto
qed

lemma descendantQuery_completes:
  assumes rank: "\<forall>row\<in>set (groupTable db). \<forall>p. g_parentGroupId row = Some p \<longrightarrow> h p < (h (g_id row) :: nat)"
  shows "\<exists>depth0. \<forall>depth\<ge>depth0. descendantQuery depth db groupId \<noteq> None"
proof -
  define m where "m = sum_list (map (\<lambda>row. h (g_id row)) (groupTable db))"
  have bound: "\<forall>row\<in>set (groupTable db). h (g_id row) \<le> m"
    unfolding m_def by (auto intro: member_le_sum_list)
  have "\<forall>depth\<ge>Suc m. descendantQuery depth db groupId \<noteq> None"
  proof (intro allI impI)
    fix depth assume "Suc m \<le> depth"
    then have "\<forall>row\<in>set (filter (\<lambda>g. g_id g = groupId) (groupTable db)). m - h (g_id row) < depth"
      by auto
    with Descendants_completes [OF rank bound, of "filter (\<lambda>g. g_id g = groupId) (groupTable db)" depth]
    show "descendantQuery depth db groupId \<noteq> None"
      by (simp add: descendantQuery_def)
  qed
  then show ?thesis by blast
qed

text \<open>
  C3. Let group A exist and let the request propose the new parent B, where B is reached
  from A by child pointers in the store as it is before the edit (A itself included).
  When the recursive query completes, \<open>updateGroup\<close> answers 400 "Circular reference
  detected." and the store and the cache are exactly as before; when the store aborts
  the query the answer is 500, again with nothing changed. On a store whose parent
  pointers are acyclic the query completes for every large enough round limit, so the
  update is rejected.
\<close>

theorem updateGroup_rejects_descendant_as_parent:
  assumes existing: "select_group_by_id db (Some groupIdParam) = existingGroup # others"
    and descendant: "(groupIdParam, newParent) \<in> (child_rel (groupTable db))\<^sup>*"
  shows "(descendantQuery depth db groupIdParam \<noteq> None \<longrightarrow>
            updateGroup depth now groupIdParam groupName (Value newParent) (db, c)
              = (Json 400 (ErrorBody ''Circular reference detected.''), db, c))
       \<and> (descendantQuery depth db groupIdParam = None \<longrightarrow>
            updateGroup depth now groupIdParam groupName (Value newParent) (db, c)
              = (Json 500 (ErrorBody ''Internal server error''), db, c))
       \<and> ((\<forall>row\<in>set (groupTable db). \<forall>p. g_parentGroupId row = Some p \<longrightarrow> h p < (h (g_id row) :: nat)) \<longrightarrow>
            (\<exists>depth0. \<forall>depth'\<ge>depth0.
               updateGroup depth' now groupIdParam groupName (Value newParent) (db, c)
                 = (Json 400 (ErrorBody ''Circular reference detected.''), db, c)))"
proof -
  have gid: "g_id existingGroup = groupIdParam"
    using select_group_by_id_Cons(1) [OF existing] by simp
  have reject: "updateGroup d now groupIdParam groupName (Value newParent) (db, c)
              = (Json 400 (ErrorBody ''Circular reference detected.''), db, c)"
    if "descendantQuery d db groupIdParam \<noteq> None" for d
  proof -
    from that obtain descendantIds where q: "descendantQuery d db groupIdParam = Some descendantIds"
      by blast
    from descendantQuery_ids [OF q existing] descendant have "newParent \<in> set descendantIds"
      by blast
    with q existing gid show ?thesis
      by (simp add: updateGroup_def)
  qed
  have abort: "updateGroup depth now groupIdParam groupName (Value newParent) (db, c)
              = (Json 500 (ErrorBody ''Internal server error''), db, c)"
    if "descendantQuery depth db groupIdParam = None"
    using that existing gid by (simp add: updateGroup_def)
  have "\<exists>depth0. \<forall>depth'\<ge>depth0.
               updateGroup depth' now groupIdParam groupName (Value newParent) (db, c)
                 = (Json 400 (ErrorBody ''Circular reference detected.''), db, c)"
    if "\<forall>row\<in>set (groupTable db). \<forall>p. g_parentGroupId row = Some p \<longrightarrow> h p < h (g_id row)"
    using descendantQuery_completes [OF that, of groupIdParam] reject by blast
  with reject abort show ?thesis by blast
qed

theorem updateGroup_rejects_descendant_as_parent_witness:
  "updateGroup 1000 5 1 None (Value 2) (example_db, example_cache)
     = (Json 400 (ErrorBody ''Circular reference detected.''), example_db, example_cache)
   \<and> updateGroup 0 5 1 None (Value 2) (example_db, example_cache)
     = (Json 500 (ErrorBody ''Internal server error''), example_db, example_cache)
   \<and> (\<exists>depth0. \<forall>depth'\<ge>depth0.
         updateGroup depth' 5 1 None (Value 2) (example_db, example_cache)
           = (Json 400 (ErrorBody ''Circular reference detected.''), example_db, example_cache))"
proof -
  have d: "(1, 2) \<in> (child_rel (groupTable example_db))\<^sup>*"
    by (rule r_into_rtrancl) (simp add: child_rel_def example_db_def)
  have q: "descendantQuery 1000 example_db 1 \<noteq> None"
    by (simp add: descendantQuery_def example_db_def Descendants_pos)
  have q0: "descendantQuery 0 example_db 1 = None"
    by (simp add: descendantQuery_def example_db_def)
  have rank: "\<forall>row\<in>set (groupTable example_db). \<forall>p. g_parentGroupId row = Some p \<longrightarrow> nat p < nat (g_id row)"
    by (simp add: example_db_def)
  note t = updateGroup_rejects_descendant_as_parent [OF select_example_db(1) d, where h = nat]
  from t [of 1000] q t [of 0] q0 rank show ?thesis
    by blast
qed

section \<open>Keys of different groups differ\<close>

lemma digitVal_digitChar:
  assumes "d < 10"
  shows "digitVal (digitChar d) = d"
proof -
  from assms have "d \<in> {0, 1, 2, 3, 4, 5, 6, 7, 8, 9}" by auto
  then show ?thesis by (auto simp: digitVal_def digitChar_def)
qed

lemma digitChar_not_minus:
  assumes "d < 10"
  shows "digitChar d \<noteq> CHR ''-''"
proof -
  from assms have "d \<in> {0, 1, 2, 3, 4, 5, 6, 7, 8, 9}" by auto
  then show ?thesis by (auto simp: digitChar_def)
qed

lemma digits10_decode: "foldl (\<lambda>a ch. 10 * a + digitVal ch) 0 (digits10 n) = n"
proof (induction n rule: digits10.induct)
  case (1 n)
  show ?case
  proof (cases "n < 10")
    case True
    then show ?thesis by (simp add: digits10.simps digitVal_digitChar)
  next
    case False
    with 1 show ?thesis by (subst digits10.simps) (simp add: digitVal_digitChar)
  qed
qed

lemma digits10_inj: "digits10 m = digits10 n \<Longrightarrow> m = n"
  by (metis digits10_decode)

lemma digits10_hd: "\<exists>d cs. d < 10 \<and> digits10 n = digitChar d # cs"
proof (induction n rule: digits10.induct)
  case (1 n)
  show ?case
  proof (cases "n < 10")
    case True
    then show ?thesis by (subst digits10.simps) auto
  next
    case False
    with 1 obtain d cs where "d < 10" "digits10 (n div 10) = digitChar d # cs" by blast
    with False show ?thesis by (subst digits10.simps) auto
  qed
qed

lemma digits10_no_minus: "digits10 n \<noteq> CHR ''-'' # cs"
proof
  assume m: "digits10 n = CHR ''-'' # cs"
  from digits10_hd [of n] obtain d cs' where "d < 10" "digits10 n = digitChar d # cs'"
    by blast
  with m digitChar_not_minus [of d] show False by simp
qed

lemma numberToString_inj:
  assumes "numberToString i = numberToString j"
  shows "i = j"
proof (cases "i < 0")
  case True
  note i = this
  show ?thesis
  proof (cases "j < 0")
    case True
    with i assms have "nat (- i) = nat (- j)"
      by (auto simp: numberToString_def dest: digits10_inj)
    with i True show ?thesis by simp
  next
    case False
    with i assms show ?thesis
      by (auto simp: numberToString_def digits10_no_minus dest: sym)
  qed
next
  case False
  note i = this
  show ?thesis
  proof (cases "j < 0")
    case True
    with i assms show ?thesis
      by (auto simp: numberToString_def digits10_no_minus)
  next
    case False
    with i assms have "nat i = nat j"
      by (auto simp: numberToString_def dest: digits10_inj)
    with i False show ?thesis by simp
  qed
qed

lemma cacheKey_below_inj:
  "cacheKey_below groupId fc = cacheKey_below groupId' fc \<Longrightarrow> groupId = groupId'"
  by (simp add: cacheKey_below_def numberToString_inj)


section \<open>An invariant of the descendant traversal\<close>

lemma cache_inv_empty: "cache_inv N now fc Map.empty"
  by (simp add: cache_inv_def redis_get_def)

lemma cache_inv_setex_error:
  "cache_inv N now fc c \<Longrightarrow> cache_inv N now fc (redis_setex now key seconds (IsError msg) c)"
  by (auto simp: cache_inv_def redis_get_def redis_setex_def split: if_splits)

lemma cache_inv_setex_group:
  assumes "cache_inv N now fc c" and "gb_id g = groupId" and "every_node N g"
  shows "cache_inv N now fc (redis_setex now (cacheKey_below groupId fc) seconds (IsGroup g) c)"
  unfolding cache_inv_def
proof (intro allI impI)
  fix groupId' g'
  assume live: "redis_get now (redis_setex now (cacheKey_below groupId fc) seconds (IsGroup g) c)
                  (cacheKey_below groupId' fc) = Some (IsGroup g')"
  show "gb_id g' = groupId' \<and> every_node N g'"
  proof (cases "cacheKey_below groupId' fc = cacheKey_below groupId fc")
    case True
    then have "groupId' = groupId" by (rule cacheKey_below_inj)
    moreover from live True have "g' = g"
      by (simp add: redis_get_def redis_setex_def split: if_splits)
    ultimately show ?thesis using assms(2,3) by simp
  next
    case False
    with live have "redis_get now c (cacheKey_below groupId' fc) = Some (IsGroup g')"
      by (simp add: redis_get_setex_other)
    with assms(1) show ?thesis by (simp add: cache_inv_def)
  qed
qed

lemma cache_inv_setex:
  assumes "cache_inv N now fc c" and "\<forall>g. v = IsGroup g \<longrightarrow> gb_id g = groupId \<and> every_node N g"
  shows "cache_inv N now fc (redis_setex now (cacheKey_below groupId fc) seconds v c)"
proof (cases v)
  case (IsGroup g)
  with assms show ?thesis by (simp add: cache_inv_setex_group)
next
  case (IsError msg)
  with assms(1) show ?thesis by (simp add: cache_inv_setex_error)
qed

lemma every_node_sel: "every_node N g = (N (gb_id g) (gb_persons g) \<and> list_all (every_node N) (gb_groups g))"
  by (cases g) simp

lemma below_invariant:
  fixes N :: "int \<Rightarrow> Person list \<Rightarrow> bool"
  shows "(\<forall>i row rest. select_group_by_id db (Some i) = row # rest \<longrightarrow>
            N i (map personOfRow (select_persons db i (buildConditions fc)))) \<Longrightarrow>
         cache_inv N now fc c \<Longrightarrow>
         fetchGroupHierarchyBelow fuel db now groupId fc c = Some (r, c') \<Longrightarrow>
         cache_inv N now fc c' \<and> (\<forall>g. r = Inr (IsGroup g) \<longrightarrow> gb_id g = groupId \<and> every_node N g)"
    and "(\<forall>i row rest. select_group_by_id db (Some i) = row # rest \<longrightarrow>
            N i (map personOfRow (select_persons db i (buildConditions fc)))) \<Longrightarrow>
         cache_inv N now fc c \<Longrightarrow> every_node N grp \<Longrightarrow>
         forChildGroups fuel db now fc rows grp c = Some (r, c') \<Longrightarrow>
         cache_inv N now fc c' \<and> (\<forall>g. r = Inr (IsGroup g) \<longrightarrow> gb_id g = gb_id grp \<and> every_node N g)"
proof (induction fuel db now groupId fc c and fuel db now fc rows grp c
    arbitrary: r c' and r c' rule: fetchGroupHierarchyBelow_forChildGroups.induct)
  case (1 db now groupId fc c)
  show ?case
  proof (cases "redis_get now c (cacheKey_below groupId fc)")
    case None
    with "1.prems"(3) show ?thesis by (simp add: getOrSetCache_miss)
  next
    case (Some v)
    with "1.prems"(3) have "r = Inr v" "c' = c" by (simp_all add: getOrSetCache_hit)
    with Some "1.prems"(2) show ?thesis by (auto simp: cache_inv_def)
  qed
next
  case (2 fuel db now groupId fc c)
  show ?case
  proof (cases "redis_get now c (cacheKey_below groupId fc)")
    case (Some v)
    with "2.prems"(3) have "r = Inr v" "c' = c" by (simp_all add: getOrSetCache_hit)
    with Some "2.prems"(2) show ?thesis by (auto simp: cache_inv_def)
  next
    case None
    note miss = this
    show ?thesis
    proof (cases "select_group_by_id db (Some groupId)")
      case Nil
      with miss "2.prems"(3) have "r = Inr (IsError (notFound groupId))"
        "c' = redis_setex now (cacheKey_below groupId fc) DEFAULT_EXPIRATION (IsError (notFound groupId)) c"
        by (simp_all add: getOrSetCache_miss)
      with "2.prems"(2) show ?thesis by (simp add: cache_inv_setex_error)
    next
      case (Cons groupRow others)
      let ?grp = "GroupBelow groupId (g_groupName groupRow)
                    (map personOfRow (select_persons db groupId (buildConditions fc))) []"
      from "2.prems"(1) Cons have start: "every_node N ?grp" by simp
      from miss Cons "2.prems"(3) obtain r1 c1 where
        loop: "forChildGroups fuel db now fc (select_groups_by_parent db groupId) ?grp c = Some (r1, c1)"
        by (cases "forChildGroups fuel db now fc (select_groups_by_parent db groupId) ?grp c")
           (auto simp: getOrSetCache_miss)
      from "2.IH" [OF Cons "2.prems"(1,2) start loop]
      have inv1: "cache_inv N now fc c1"
        and res1: "\<forall>g. r1 = Inr (IsGroup g) \<longrightarrow> gb_id g = groupId \<and> every_node N g"
        by simp_all
      show ?thesis
      proof (cases r1)
        case (Inl err)
        with miss Cons loop "2.prems"(3) have "r = Inl err" "c' = c1"
          by (simp_all add: getOrSetCache_miss)
        with inv1 show ?thesis by simp
      next
        case (Inr v)
        with miss Cons loop "2.prems"(3) have rc: "r = Inr v"
          "c' = redis_setex now (cacheKey_below groupId fc) DEFAULT_EXPIRATION v c1"
          by (simp_all add: getOrSetCache_miss)
        from res1 Inr have "\<forall>g. v = IsGroup g \<longrightarrow> gb_id g = groupId \<and> every_node N g" by simp
        with inv1 rc show ?thesis by (simp add: cache_inv_setex)
      qed
    qed
  qed
next
  case (3 fuel db now fc grp c)
  then show ?case by auto
next
  case (4 fuel db now fc childGroupRow childGroups grp c)
  from "4.prems"(4) obtain r1 c1 where
    call: "fetchGroupHierarchyBelow fuel db now (g_id childGroupRow) fc c = Some (r1, c1)"
    by (cases "fetchGroupHierarchyBelow fuel db now (g_id childGroupRow) fc c") auto
  from "4.IH"(1) [OF "4.prems"(1,2) call]
  have inv1: "cache_inv N now fc c1"
    and res1: "\<forall>g. r1 = Inr (IsGroup g) \<longrightarrow> gb_id g = g_id childGroupRow \<and> every_node N g"
    by simp_all
  show ?case
  proof (cases r1)
    case (Inl err)
    with call "4.prems"(4) have "r = Inl err" "c' = c1" by simp_all
    with inv1 show ?thesis by simp
  next
    case (Inr v)
    show ?thesis
    proof (cases v)
      case (IsError msg)
      with Inr call "4.prems"(4) have "r = Inr (IsError msg)" "c' = c1" by simp_all
      with inv1 show ?thesis by simp
    next
      case (IsGroup child)
      let ?grp = "GroupBelow (gb_id grp) (gb_groupName grp) (gb_persons grp)
                    (gb_groups grp
                       @ [GroupBelow (g_id childGroupRow) (g_groupName childGroupRow)
                            (gb_persons child) (gb_groups child)])"
      from res1 Inr IsGroup have "gb_id child = g_id childGroupRow" "every_node N child"
        by simp_all
      then have "every_node N (GroupBelow (g_id childGroupRow) (g_groupName childGroupRow)
                            (gb_persons child) (gb_groups child))"
        by (cases child) simp
      with "4.prems"(3) have grp: "every_node N ?grp"
        by (cases grp) simp
      from Inr IsGroup call "4.prems"(4)
      have rest: "forChildGroups fuel db now fc childGroups ?grp c1 = Some (r, c')"
        by simp
      from "4.IH"(2) [OF call refl Inr IsGroup "4.prems"(1) inv1 grp rest]
      show ?thesis by simp
    qed
  qed
qed

section \<open>Not-found results inside the descendant traversal\<close>

lemma forChildGroups_append:
  "forChildGroups fuel db now fc before grp c = Some (Inr (IsGroup grp1), c1) \<Longrightarrow>
   forChildGroups fuel db now fc (before @ rest) grp c = forChildGroups fuel db now fc rest grp1 c1"
proof (induction before arbitrary: grp c)
  case Nil
  then show ?case by simp
next
  case (Cons childGroupRow before)
  from Cons.prems obtain child c' where
    call: "fetchGroupHierarchyBelow fuel db now (g_id childGroupRow) fc c = Some (Inr (IsGroup child), c')"
    by (auto split: option.splits sum.splits GroupOrError.splits)
  with Cons.prems Cons.IH show ?case by simp
qed

lemma forChildGroups_ids:
  "forChildGroups fuel db now fc rows grp c = Some (Inr (IsGroup g), c') \<Longrightarrow>
   map gb_id (gb_groups g) = map gb_id (gb_groups grp) @ map g_id rows"
proof (induction rows arbitrary: grp c)
  case Nil
  then show ?case by simp
next
  case (Cons childGroupRow rows)
  from Cons.prems obtain child c1 where
    call: "fetchGroupHierarchyBelow fuel db now (g_id childGroupRow) fc c = Some (Inr (IsGroup child), c1)"
    by (auto split: option.splits sum.splits GroupOrError.splits)
  with Cons.prems Cons.IH [of "GroupBelow (gb_id grp) (gb_groupName grp) (gb_persons grp)
               (gb_groups grp
                  @ [GroupBelow (g_id childGroupRow) (g_groupName childGroupRow)
                       (gb_persons child) (gb_groups child)])" c1]
  show ?case by simp
qed

lemma row_present_start:
  "\<forall>i row rest. select_group_by_id db (Some i) = row # rest \<longrightarrow>
     row_present db i (map personOfRow (select_persons db i (buildConditions fc)))"
  by (simp add: row_present_def)

text \<open>
  C6. On a miss for the key: when the row of the group is absent the call returns the
  not-found object of that group. When the row is present, the loop has run over the
  child rows before some child and the call for that child, in the cache the loop has
  reached, returns a not-found object, the whole call returns that same object: the
  children after it are not visited and no group object is built. When the call returns
  a group object, starting from a cache whose live group objects only have nodes with
  a row in the store, then every node of the result has a row in the store and the
  result has one node for each child row, in the order of the rows.
\<close>

theorem fetchGroupHierarchyBelow_notFound:
  assumes miss: "redis_get now c (cacheKey_below groupId fc) = None"
  shows "(select_group_by_id db (Some groupId) = [] \<longrightarrow>
            fetchGroupHierarchyBelow (Suc fuel) db now groupId fc c
              = Some (Inr (IsError (notFound groupId)),
                      redis_setex now (cacheKey_below groupId fc) DEFAULT_EXPIRATION
                        (IsError (notFound groupId)) c))
       \<and> (\<forall>groupRow others before child after grp1 c1 msg c2.
            select_group_by_id db (Some groupId) = groupRow # others \<longrightarrow>
            select_groups_by_parent db groupId = before @ child # after \<longrightarrow>
            forChildGroups fuel db now fc before
              (GroupBelow groupId (g_groupName groupRow)
                 (map personOfRow (select_persons db groupId (buildConditions fc))) []) c
              = Some (Inr (IsGroup grp1), c1) \<longrightarrow>
            fetchGroupHierarchyBelow fuel db now (g_id child) fc c1 = Some (Inr (IsError msg), c2) \<longrightarrow>
            fetchGroupHierarchyBelow (Suc fuel) db now groupId fc c
              = Some (Inr (IsError msg),
                      redis_setex now (cacheKey_below groupId fc) DEFAULT_EXPIRATION
                        (IsError msg) c2))
       \<and> (\<forall>g c'. fetchGroupHierarchyBelow (Suc fuel) db now groupId fc c = Some (Inr (IsGroup g), c') \<longrightarrow>
            cache_inv (row_present db) now fc c \<longrightarrow>
            every_node (row_present db) g
            \<and> map gb_id (gb_groups g) = map g_id (select_groups_by_parent db groupId))"
proof (intro conjI allI impI)
  assume "select_group_by_id db (Some groupId) = []"
  with miss show "fetchGroupHierarchyBelow (Suc fuel) db now groupId fc c
              = Some (Inr (IsError (notFound groupId)),
                      redis_setex now (cacheKey_below groupId fc) DEFAULT_EXPIRATION
                        (IsError (notFound groupId)) c)"
    by (simp add: getOrSetCache_miss)
next
  fix groupRow :: group_row and others before and child :: group_row and after grp1 c1 msg c2
  let ?grp = "GroupBelow groupId (g_groupName groupRow)
                 (map personOfRow (select_persons db groupId (buildConditions fc))) []"
  assume row: "select_group_by_id db (Some groupId) = groupRow # others"
    and rows: "select_groups_by_parent db groupId = before @ child # after"
    and before: "forChildGroups fuel db now fc before ?grp c = Some (Inr (IsGroup grp1), c1)"
    and call: "fetchGroupHierarchyBelow fuel db now (g_id child) fc c1 = Some (Inr (IsError msg), c2)"
  from forChildGroups_append [OF before, of "child # after"] call
  have "forChildGroups fuel db now fc (before @ child # after) ?grp c = Some (Inr (IsError msg), c2)"
    by simp
  with miss row rows show "fetchGroupHierarchyBelow (Suc fuel) db now groupId fc c
              = Some (Inr (IsError msg),
                      redis_setex now (cacheKey_below groupId fc) DEFAULT_EXPIRATION
                        (IsError msg) c2)"
    by (simp add: getOrSetCache_miss)
next
  fix g c'
  assume res: "fetchGroupHierarchyBelow (Suc fuel) db now groupId fc c = Some (Inr (IsGroup g), c')"
    and inv: "cache_inv (row_present db) now fc c"
  from below_invariant(1) [OF row_present_start inv res]
  show "every_node (row_present db) g" by simp
  from res miss obtain groupRow others where row: "select_group_by_id db (Some groupId) = groupRow # others"
    by (cases "select_group_by_id db (Some groupId)") (auto simp: getOrSetCache_miss)
  with res miss obtain c1 where
    "forChildGroups fuel db now fc (select_groups_by_parent db groupId)
       (GroupBelow groupId (g_groupName groupRow)
          (map personOfRow (select_persons db groupId (buildConditions fc))) []) c
     = Some (Inr (IsGroup g), c1)"
    by (auto simp: getOrSetCache_miss split: option.splits sum.splits)
  from forChildGroups_ids [OF this]
  show "map gb_id (gb_groups g) = map g_id (select_groups_by_parent db groupId)"
    by simp
qed


lemma redis_get_empty: "redis_get now Map.empty key = None"
  by (simp add: redis_get_def)

lemma redis_get_setex:
  "redis_get later (redis_setex now key seconds v c) key'
     = (if key' = key then (if later < now + seconds then Some v else None)
        else redis_get later c key')"
  by (simp add: redis_get_def redis_setex_def)

lemma cacheKey_below_examples:
  "cacheKey_below 1 [] = ''groups_below_1_[]''"
  "cacheKey_below 2 [] = ''groups_below_2_[]''"
  "cacheKey_below 9 [] = ''groups_below_9_[]''"
  by (simp_all add: cacheKey_below_def numberToString_def digits10.simps digitChar_def
      JSON_stringify_def)

lemma notFound_examples:
  "notFound 2 = ''Group with ID 2 not found''"
  "notFound 9 = ''Group with ID 9 not found''"
  by (simp_all add: notFound_def numberToString_def digits10.simps digitChar_def)

lemma children_example_db:
  "select_groups_by_parent example_db 1
     = [\<lparr>g_id = 2, g_groupName = ''Child'', g_parentGroupId = Some 1, g_updatedAt = 0\<rparr>]"
  "select_groups_by_parent example_db 2 = []"
  by (simp_all add: select_groups_by_parent_def example_db_def)

lemma persons_example_db:
  "map personOfRow (select_persons example_db 1 (buildConditions [])) = []"
  "map personOfRow (select_persons example_db 2 (buildConditions []))
     = [\<lparr>person_id = 1, firstName = ''Alice'', lastName = ''A'', jobTitle = ''eng''\<rparr>,
        \<lparr>person_id = 2, firstName = ''Bob'', lastName = ''B'', jobTitle = ''sales''\<rparr>]"
  by (simp_all add: select_persons_def buildConditions_def example_db_def personOfRow_def)

lemma fetchGroupHierarchyBelow_example:
  "fetchGroupHierarchyBelow (Suc (Suc 0)) example_db 0 1 [] Map.empty
     = Some (Inr (IsGroup example_subtree),
             redis_setex 0 ''groups_below_1_[]'' DEFAULT_EXPIRATION (IsGroup example_subtree)
               (redis_setex 0 ''groups_below_2_[]'' DEFAULT_EXPIRATION
                  (IsGroup (GroupBelow 2 ''Child''
                     [\<lparr>person_id = 1, firstName = ''Alice'', lastName = ''A'', jobTitle = ''eng''\<rparr>,
                      \<lparr>person_id = 2, firstName = ''Bob'', lastName = ''B'', jobTitle = ''sales''\<rparr>]
                     []))
                  Map.empty))"
  by (simp add: getOrSetCache_def redis_get_empty redis_get_setex cacheKey_below_examples
      select_example_db children_example_db persons_example_db example_subtree_def)

theorem fetchGroupHierarchyBelow_notFound_witness:
  "fetchGroupHierarchyBelow (Suc 0) example_db 0 9 [] Map.empty
     = Some (Inr (IsError ''Group with ID 9 not found''),
             redis_setex 0 ''groups_below_9_[]'' DEFAULT_EXPIRATION
               (IsError ''Group with ID 9 not found'') Map.empty)
   \<and> fetchGroupHierarchyBelow (Suc (Suc 0)) example_db 0 1 [] example_cache_below
     = Some (Inr (IsError ''Group with ID 2 not found''),
             redis_setex 0 ''groups_below_1_[]'' DEFAULT_EXPIRATION
               (IsError ''Group with ID 2 not found'') example_cache_below)
   \<and> every_node (row_present example_db) example_subtree
   \<and> map gb_id (gb_groups example_subtree) = [2]"
proof -
  have miss9: "redis_get 0 (Map.empty :: GroupBelow GroupOrError cache) (cacheKey_below 9 []) = None"
    and miss1: "redis_get 0 (Map.empty :: GroupBelow GroupOrError cache) (cacheKey_below 1 []) = None"
    by (simp_all add: redis_get_empty)
  have miss1': "redis_get 0 example_cache_below (cacheKey_below 1 []) = None"
    by (simp add: example_cache_below_def redis_get_setex redis_get_empty cacheKey_below_examples)
  have a: "fetchGroupHierarchyBelow (Suc 0) example_db 0 9 [] Map.empty
     = Some (Inr (IsError ''Group with ID 9 not found''),
             redis_setex 0 ''groups_below_9_[]'' DEFAULT_EXPIRATION
               (IsError ''Group with ID 9 not found'') Map.empty)"
    using fetchGroupHierarchyBelow_notFound [OF miss9, of example_db 0] select_example_db(4)
    by (simp only: notFound_examples cacheKey_below_examples)
  have before: "forChildGroups (Suc 0) example_db 0 [] []
        (GroupBelow 1 (g_groupName \<lparr>g_id = 1, g_groupName = ''Root'', g_parentGroupId = None, g_updatedAt = 0\<rparr>)
           (map personOfRow (select_persons example_db 1 (buildConditions []))) [])
        example_cache_below
      = Some (Inr (IsGroup (GroupBelow 1 ''Root'' [] [])), example_cache_below)"
    by (simp add: persons_example_db)
  have call: "fetchGroupHierarchyBelow (Suc 0) example_db 0
        (g_id \<lparr>g_id = 2, g_groupName = ''Child'', g_parentGroupId = Some 1, g_updatedAt = 0\<rparr>) []
        example_cache_below
      = Some (Inr (IsError ''Group with ID 2 not found''), example_cache_below)"
    by (simp add: getOrSetCache_def example_cache_below_def redis_get_setex
        cacheKey_below_examples DEFAULT_EXPIRATION_def)
  have rows: "select_groups_by_parent example_db 1
     = [] @ \<lparr>g_id = 2, g_groupName = ''Child'', g_parentGroupId = Some 1, g_updatedAt = 0\<rparr> # []"
    by (simp add: children_example_db)
  have b: "fetchGroupHierarchyBelow (Suc (Suc 0)) example_db 0 1 [] example_cache_below
     = Some (Inr (IsError ''Group with ID 2 not found''),
             redis_setex 0 ''groups_below_1_[]'' DEFAULT_EXPIRATION
               (IsError ''Group with ID 2 not found'') example_cache_below)"
    using fetchGroupHierarchyBelow_notFound [OF miss1', of example_db "Suc 0"]
      select_example_db(1) rows before call
    by (simp only: cacheKey_below_examples)
  have c: "every_node (row_present example_db) example_subtree
     \<and> map gb_id (gb_groups example_subtree) = map g_id (select_groups_by_parent example_db 1)"
    using fetchGroupHierarchyBelow_notFound [OF miss1, of example_db "Suc 0"]
      fetchGroupHierarchyBelow_example cache_inv_empty [of "row_present example_db" 0 "[]"]
    by blast
  from a b c show ?thesis
    by (simp add: children_example_db)
qed

section \<open>The persons of a subtree result\<close>












end
